theory Spec2Isabelle
  imports Main
begin

section \<open>Python values and the operations the scanners use\<close>

text \<open>
  The scanners work on documents produced by \<^verbatim>\<open>yaml.safe_load\<close> and
  \<^verbatim>\<open>json.load\<close>: \<^verbatim>\<open>None\<close>, booleans, integers, strings, lists and
  dictionaries. A dictionary is kept as the list of its items in insertion order and is
  looked up by key. Floating point numbers are not modelled. A string is a sequence of
  code points below 256 (Latin-1), one \<open>char\<close> each; \<^verbatim>\<open>lower\<close>,
  \<^verbatim>\<open>upper\<close>, \<^verbatim>\<open>isdigit\<close> and \<^verbatim>\<open>repr\<close> are Python's on these
  code points.
\<close>

datatype pyval =
    PNone
  | PBool bool
  | PInt int
  | PStr string
  | PList "pyval list"
  | PDict "(pyval \<times> pyval) list"

text \<open>
  An exception with the text that \<^verbatim>\<open>str(e)\<close> gives (the texts of the run-time
  errors are those of CPython 3.12). \<^verbatim>\<open>LoadError\<close> stands for whatever
  \<^verbatim>\<open>open\<close>, \<^verbatim>\<open>yaml.safe_load\<close> or \<^verbatim>\<open>json.load\<close> raise.
\<close>

datatype exn =
    LoadError string
  | AttributeError string
  | TypeError string
  | IndexError string
  | KeyError string

fun str_exn :: "exn \<Rightarrow> string" where
  "str_exn (LoadError m) = m"
| "str_exn (AttributeError m) = m"
| "str_exn (TypeError m) = m"
| "str_exn (IndexError m) = m"
| "str_exn (KeyError m) = m"

fun type_name :: "pyval \<Rightarrow> string" where
  "type_name PNone = ''NoneType''"
| "type_name (PBool _) = ''bool''"
| "type_name (PInt _) = ''int''"
| "type_name (PStr _) = ''str''"
| "type_name (PList _) = ''list''"
| "type_name (PDict _) = ''dict''"

definition no_attribute :: "pyval \<Rightarrow> string \<Rightarrow> exn" where
  "no_attribute v a =
     AttributeError ([CHR 0x27] @ type_name v @ [CHR 0x27] @ '' object has no attribute ''
                     @ [CHR 0x27] @ a @ [CHR 0x27])"

definition not_iterable :: "pyval \<Rightarrow> exn" where
  "not_iterable v = TypeError ([CHR 0x27] @ type_name v @ [CHR 0x27] @ '' object is not iterable'')"

definition not_container :: "pyval \<Rightarrow> exn" where
  "not_container v =
     TypeError (''argument of type '' @ [CHR 0x27] @ type_name v @ [CHR 0x27] @ '' is not iterable'')"

subsection \<open>Truth value, string methods\<close>

fun truthy :: "pyval \<Rightarrow> bool" where
  "truthy PNone = False"
| "truthy (PBool b) = b"
| "truthy (PInt n) = (n \<noteq> 0)"
| "truthy (PStr s) = (s \<noteq> [])"
| "truthy (PList xs) = (xs \<noteq> [])"
| "truthy (PDict kvs) = (kvs \<noteq> [])"

fun startswith :: "string \<Rightarrow> string \<Rightarrow> bool" where
  "startswith s [] = True"
| "startswith [] (p # ps) = False"
| "startswith (c # cs) (p # ps) = (c = p \<and> startswith cs ps)"

text \<open>\<^verbatim>\<open>p in s\<close> for two strings: \<open>p\<close> occurs in \<open>s\<close> as a substring.\<close>

fun str_contains :: "string \<Rightarrow> string \<Rightarrow> bool" where
  "str_contains [] p = (p = [])"
| "str_contains (c # cs) p = (startswith (c # cs) p \<or> str_contains cs p)"

text \<open>
  \<^verbatim>\<open>c.lower()\<close>: the letters \<^verbatim>\<open>A-Z\<close> and the upper-case letters U+00C0 to
  U+00DE (without the sign U+00D7) have a lower case, 32 code points further.
\<close>

definition upper_case_letters :: string where
  "upper_case_letters =
     ''ABCDEFGHIJKLMNOPQRSTUVWXYZ''
     @ [CHR 0xC0, CHR 0xC1, CHR 0xC2, CHR 0xC3, CHR 0xC4, CHR 0xC5, CHR 0xC6, CHR 0xC7,
       CHR 0xC8, CHR 0xC9, CHR 0xCA, CHR 0xCB, CHR 0xCC, CHR 0xCD, CHR 0xCE, CHR 0xCF,
       CHR 0xD0, CHR 0xD1, CHR 0xD2, CHR 0xD3, CHR 0xD4, CHR 0xD5, CHR 0xD6, CHR 0xD8,
       CHR 0xD9, CHR 0xDA, CHR 0xDB, CHR 0xDC, CHR 0xDD, CHR 0xDE]"

definition lower_case_of_them :: string where
  "lower_case_of_them =
     ''abcdefghijklmnopqrstuvwxyz''
     @ [CHR 0xE0, CHR 0xE1, CHR 0xE2, CHR 0xE3, CHR 0xE4, CHR 0xE5, CHR 0xE6, CHR 0xE7,
       CHR 0xE8, CHR 0xE9, CHR 0xEA, CHR 0xEB, CHR 0xEC, CHR 0xED, CHR 0xEE, CHR 0xEF,
       CHR 0xF0, CHR 0xF1, CHR 0xF2, CHR 0xF3, CHR 0xF4, CHR 0xF5, CHR 0xF6, CHR 0xF8,
       CHR 0xF9, CHR 0xFA, CHR 0xFB, CHR 0xFC, CHR 0xFD, CHR 0xFE]"

definition lower_char :: "char \<Rightarrow> char" where
  "lower_char c =
     (case map_of (zip upper_case_letters lower_case_of_them) c of Some l \<Rightarrow> l | None \<Rightarrow> c)"

definition lower :: "string \<Rightarrow> string" where
  "lower s = map lower_char s"

text \<open>
  \<^verbatim>\<open>s.upper()\<close>, as the list of its code points: the upper case of U+00B5 is
  U+039C, that of U+00FF is U+0178, and that of U+00DF is \<^verbatim>\<open>SS\<close>.
\<close>

definition codes :: "string \<Rightarrow> nat list" where
  "codes s = map of_char s"

definition upper_char :: "char \<Rightarrow> nat list" where
  "upper_char c =
     (let n = (of_char c :: nat) in
      if 97 \<le> n \<and> n \<le> 122 then [n - 32]
      else if n = 181 then [924]
      else if n = 223 then [83, 83]
      else if 224 \<le> n \<and> n \<le> 254 \<and> n \<noteq> 247 then [n - 32]
      else if n = 255 then [376]
      else [n])"

definition upper :: "string \<Rightarrow> nat list" where
  "upper s = concat (map upper_char s)"

text \<open>
  \<^verbatim>\<open>c.isdigit()\<close>: the digits \<^verbatim>\<open>0-9\<close> and the superscript digits U+00B2,
  U+00B3 and U+00B9.
\<close>

definition isdigit :: "char \<Rightarrow> bool" where
  "isdigit c = (c \<in> set (''0123456789'' @ [CHR 0xB2, CHR 0xB3, CHR 0xB9]))"

text \<open>\<^verbatim>\<open>s.split(sep)\<close> for a separator of one character.\<close>

fun split :: "char \<Rightarrow> string \<Rightarrow> string list" where
  "split sep [] = [[]]"
| "split sep (c # cs) =
     (if c = sep then [] # split sep cs
      else (case split sep cs of [] \<Rightarrow> [[c]] | p # ps \<Rightarrow> (c # p) # ps))"

text \<open>\<^verbatim>\<open>xs[i]\<close> for \<open>i \<ge> 0\<close>: out of range raises \<^verbatim>\<open>IndexError\<close>.\<close>

definition list_index :: "string list \<Rightarrow> nat \<Rightarrow> exn + string" where
  "list_index xs i =
     (if i < length xs then Inr (xs ! i) else Inl (IndexError ''list index out of range''))"

definition str_index :: "string \<Rightarrow> nat \<Rightarrow> exn + char" where
  "str_index s i =
     (if i < length s then Inr (s ! i) else Inl (IndexError ''string index out of range''))"

subsection \<open>Text of a value: \<^verbatim>\<open>str\<close> and \<^verbatim>\<open>repr\<close>\<close>

text \<open>
  \<^verbatim>\<open>repr\<close> of a string escapes the quote, the backslash and the code points that
  are not printable: those below 32, 127 to 160 and 173.
\<close>

fun str_nat :: "nat \<Rightarrow> string" where
  "str_nat n =
     (if n < 10 then [''0123456789'' ! n] else str_nat (n div 10) @ [''0123456789'' ! (n mod 10)])"

definition str_int :: "int \<Rightarrow> string" where
  "str_int i = (if i < 0 then CHR ''-'' # str_nat (nat (- i)) else str_nat (nat i))"

definition hex_digit :: "nat \<Rightarrow> char" where
  "hex_digit n = ''0123456789abcdef'' ! (n mod 16)"

definition repr_char :: "char \<Rightarrow> char \<Rightarrow> string" where
  "repr_char q c =
     (let n = (of_char c :: nat) in
      if c = q \<or> c = CHR 0x5C then [CHR 0x5C, c]
      else if c = CHR 0x09 then [CHR 0x5C, CHR ''t'']
      else if c = CHR 0x0A then [CHR 0x5C, CHR ''n'']
      else if c = CHR 0x0D then [CHR 0x5C, CHR ''r'']
      else if n < 32 \<or> (127 \<le> n \<and> n \<le> 160) \<or> n = 173
      then [CHR 0x5C, CHR ''x'', hex_digit (n div 16), hex_digit n]
      else [c])"

definition repr_str :: "string \<Rightarrow> string" where
  "repr_str s =
     (let q = (if CHR 0x27 \<in> set s \<and> CHR 0x22 \<notin> set s then CHR 0x22 else CHR 0x27)
      in [q] @ concat (map (repr_char q) s) @ [q])"

fun join :: "string \<Rightarrow> string list \<Rightarrow> string" where
  "join sep [] = []"
| "join sep [x] = x"
| "join sep (x # y # ys) = x @ sep @ join sep (y # ys)"

primrec repr :: "pyval \<Rightarrow> string" where
  "repr PNone = ''None''"
| "repr (PBool b) = (if b then ''True'' else ''False'')"
| "repr (PInt i) = str_int i"
| "repr (PStr s) = repr_str s"
| "repr (PList xs) = ''['' @ join '', '' (map repr xs) @ '']''"
| "repr (PDict kvs) =
     ''{'' @ join '', '' (map (\<lambda>(k, v). k @ '': '' @ v) (map (map_prod repr repr) kvs)) @ ''}''"

definition str :: "pyval \<Rightarrow> string" where
  "str v = (case v of PStr s \<Rightarrow> s | _ \<Rightarrow> repr v)"

subsection \<open>Dictionaries and iteration\<close>

text \<open>\<^verbatim>\<open>d.get(k, default)\<close>: only a dictionary has the method.\<close>

definition get :: "pyval \<Rightarrow> string \<Rightarrow> pyval \<Rightarrow> exn + pyval" where
  "get d k dflt =
     (case d of
        PDict kvs \<Rightarrow> (case map_of kvs (PStr k) of Some v \<Rightarrow> Inr v | None \<Rightarrow> Inr dflt)
      | _ \<Rightarrow> Inl (no_attribute d ''get''))"

text \<open>\<^verbatim>\<open>d.items()\<close>.\<close>

definition items :: "pyval \<Rightarrow> exn + (pyval \<times> pyval) list" where
  "items d = (case d of PDict kvs \<Rightarrow> Inr kvs | _ \<Rightarrow> Inl (no_attribute d ''items''))"

text \<open>The elements a \<^verbatim>\<open>for\<close> loop over \<open>v\<close> visits.\<close>

definition iterate :: "pyval \<Rightarrow> exn + pyval list" where
  "iterate v =
     (case v of
        PList xs \<Rightarrow> Inr xs
      | PDict kvs \<Rightarrow> Inr (map fst kvs)
      | PStr s \<Rightarrow> Inr (map (\<lambda>c. PStr [c]) s)
      | _ \<Rightarrow> Inl (not_iterable v))"

text \<open>\<^verbatim>\<open>k in v\<close> for a string \<open>k\<close>.\<close>

definition contains :: "string \<Rightarrow> pyval \<Rightarrow> exn + bool" where
  "contains k v =
     (case v of
        PStr s \<Rightarrow> Inr (str_contains s k)
      | PList xs \<Rightarrow> Inr (PStr k \<in> set xs)
      | PDict kvs \<Rightarrow> Inr (PStr k \<in> fst ` set kvs)
      | _ \<Rightarrow> Inl (not_container v))"

subsection \<open>Statements that change a state and may raise\<close>

text \<open>
  A statement takes the state (the scanner's \<^verbatim>\<open>self.issues\<close>, the gate's
  \<^verbatim>\<open>self.results\<close>) and returns the state it leaves together with the exception
  it raised, if any: what was written before a raise stays written.
\<close>

type_synonym 's stmt = "'s \<Rightarrow> 's \<times> exn option"

definition skip :: "'s stmt" where
  "skip s = (s, None)"

definition seq :: "'s stmt \<Rightarrow> 's stmt \<Rightarrow> 's stmt" where
  "seq a b s = (case a s of (s', None) \<Rightarrow> b s' | (s', Some e) \<Rightarrow> (s', Some e))"

definition with_val :: "exn + 'a \<Rightarrow> ('a \<Rightarrow> 's stmt) \<Rightarrow> 's stmt" where
  "with_val r k s = (case r of Inl e \<Rightarrow> (s, Some e) | Inr v \<Rightarrow> k v s)"

definition if_then :: "bool \<Rightarrow> 's stmt \<Rightarrow> 's stmt" where
  "if_then c a = (if c then a else skip)"

fun for_each :: "'a list \<Rightarrow> ('a \<Rightarrow> 's stmt) \<Rightarrow> 's stmt" where
  "for_each [] f s = (s, None)"
| "for_each (x # xs) f s = (case f x s of (s', None) \<Rightarrow> for_each xs f s' | (s', Some e) \<Rightarrow> (s', Some e))"

fun block :: "'s stmt list \<Rightarrow> 's stmt" where
  "block [] = skip"
| "block (a # as) = seq a (block as)"

text \<open>\<^verbatim>\<open>try: body except Exception as e: handler(e)\<close>, for a handler that cannot raise.\<close>

definition try_except :: "'s stmt \<Rightarrow> (exn \<Rightarrow> 's \<Rightarrow> 's) \<Rightarrow> 's \<Rightarrow> 's" where
  "try_except body handler s = (case body s of (s', None) \<Rightarrow> s' | (s', Some e) \<Rightarrow> handler e s')"

text \<open>\<^verbatim>\<open>v[k]\<close> for a string \<open>k\<close>.\<close>

definition subscript :: "pyval \<Rightarrow> string \<Rightarrow> exn + pyval" where
  "subscript v k =
     (case v of
        PDict kvs \<Rightarrow> (case map_of kvs (PStr k) of Some x \<Rightarrow> Inr x | None \<Rightarrow> Inl (KeyError (repr_str k)))
      | PList xs \<Rightarrow> Inl (TypeError ''list indices must be integers or slices, not str'')
      | PStr s \<Rightarrow> Inl (TypeError (''string indices must be integers, not '' @ [CHR 0x27] @ ''str'' @ [CHR 0x27]))
      | _ \<Rightarrow> Inl (TypeError ([CHR 0x27] @ type_name v @ [CHR 0x27] @ '' object is not subscriptable'')))"

text \<open>\<^verbatim>\<open>d.get(k, default)\<close> for a dictionary of the program's own.\<close>

definition lookup_or :: "('k \<times> 'v) list \<Rightarrow> 'k \<Rightarrow> 'v \<Rightarrow> 'v" where
  "lookup_or d k dflt = (case map_of d k of Some v \<Rightarrow> v | None \<Rightarrow> dflt)"

section \<open>The issue records of the two scanners\<close>

record issue_base =
  file' :: string
  rule :: string
  severity :: string
  description :: string
  recommendation :: string

record compose_issue = issue_base +
  service :: pyval

record workflow_issue = issue_base +
  job :: pyval
  step :: pyval

section \<open>docker-compose-security.py\<close>

definition compose_security_rules :: "(string \<times> (string \<times> string) list) list" where
  "compose_security_rules =
   [(''privileged_containers'',
       [(''severity'', ''critical''),
        (''description'', ''Container running in privileged mode''),
        (''recommendation'', ''Remove privileged: true or use specific capabilities instead'')]),
    (''host_network'',
       [(''severity'', ''high''),
        (''description'', ''Container using host network mode''),
        (''recommendation'', ''Use bridge network mode and expose specific ports'')]),
    (''host_pid'',
       [(''severity'', ''high''),
        (''description'', ''Container sharing host PID namespace''),
        (''recommendation'', ''Remove pid: host unless absolutely necessary'')]),
    (''host_ipc'',
       [(''severity'', ''high''),
        (''description'', ''Container sharing host IPC namespace''),
        (''recommendation'', ''Remove ipc: host unless absolutely necessary'')]),
    (''docker_socket_mount'',
       [(''severity'', ''critical''),
        (''description'', ''Docker socket mounted in container''),
        (''recommendation'', ''Avoid mounting /var/run/docker.sock unless absolutely necessary'')]),
    (''root_filesystem_writable'',
       [(''severity'', ''medium''),
        (''description'', ''Container root filesystem is writable''),
        (''recommendation'', ''Set read_only: true for container filesystem'')]),
    (''no_user_specified'',
       [(''severity'', ''medium''),
        (''description'', ''Container running as root user''),
        (''recommendation'', ''Specify non-root user with user: directive'')]),
    (''insecure_capabilities'',
       [(''severity'', ''high''),
        (''description'', ''Container has dangerous capabilities''),
        (''recommendation'', ''Remove dangerous capabilities like SYS_ADMIN, NET_ADMIN'')]),
    (''host_port_binding'',
       [(''severity'', ''low''),
        (''description'', ''Service binding to all interfaces (0.0.0.0)''),
        (''recommendation'', ''Bind to specific interfaces when possible'')]),
    (''default_secrets'',
       [(''severity'', ''high''),
        (''description'', ''Potential default or weak secrets detected''),
        (''recommendation'', ''Use strong, unique secrets and avoid defaults'')]),
    (''insecure_environment'',
       [(''severity'', ''medium''),
        (''description'', ''Potentially sensitive data in environment variables''),
        (''recommendation'', ''Use secrets or external configuration for sensitive data'')])]"

text \<open>\<^verbatim>\<open>DockerComposeSecurityScanner._add_issue\<close>; the state is \<^verbatim>\<open>self.issues\<close>.\<close>

definition compose_add_issue :: "string \<Rightarrow> pyval \<Rightarrow> string \<Rightarrow> compose_issue list stmt" where
  "compose_add_issue file_path service_name rule_name issues =
     (let rule' = lookup_or compose_security_rules rule_name [] in
      (issues @
       [\<lparr>file' = file_path,
         rule = rule_name,
         severity = lookup_or rule' ''severity'' ''unknown'',
         description = lookup_or rule' ''description'' ''Unknown security issue'',
         recommendation = lookup_or rule' ''recommendation'' ''Review configuration'',
         service = service_name\<rparr>], None))"

definition dangerous_caps :: "string list" where
  "dangerous_caps = [''SYS_ADMIN'', ''NET_ADMIN'', ''SYS_PTRACE'', ''SYS_MODULE'', ''DAC_OVERRIDE'']"

definition sensitive_patterns :: "string list" where
  "sensitive_patterns = [''password'', ''secret'', ''key'', ''token'', ''api_key'', ''private'']"

definition weak_values :: "string list" where
  "weak_values = [''123'', ''password'', ''secret'', ''admin'', ''root'']"

text \<open>
  The body of the loop over \<^verbatim>\<open>env_vars\<close> in \<^verbatim>\<open>_scan_service\<close> (lines 155-163): the
  inner loop stops at the first sensitive pattern found in the lower-cased entry.
\<close>

definition scan_env_var :: "string \<Rightarrow> pyval \<Rightarrow> pyval \<Rightarrow> compose_issue list stmt" where
  "scan_env_var file_path service_name env_var =
     (case env_var of
        PStr s \<Rightarrow>
          (let env_lower = lower s in
           case find (\<lambda>pattern. str_contains env_lower pattern) sensitive_patterns of
             None \<Rightarrow> skip
           | Some pattern \<Rightarrow>
               if list_ex (\<lambda>weak. str_contains env_lower weak) weak_values
               then compose_add_issue file_path service_name ''default_secrets''
               else compose_add_issue file_path service_name ''insecure_environment'')
      | _ \<Rightarrow> (\<lambda>issues. (issues, Some (no_attribute env_var ''lower''))))"

text \<open>\<^verbatim>\<open>DockerComposeSecurityScanner._scan_service\<close>.\<close>

definition scan_service :: "string \<Rightarrow> pyval \<Rightarrow> pyval \<Rightarrow> compose_issue list stmt" where
  "scan_service file_path service_name service_config =
     block [
       with_val (get service_config ''privileged'' PNone) (\<lambda>v.
         if_then (truthy v) (compose_add_issue file_path service_name ''privileged_containers'')),
       with_val (get service_config ''network_mode'' PNone) (\<lambda>v.
         if_then (v = PStr ''host'') (compose_add_issue file_path service_name ''host_network'')),
       with_val (get service_config ''pid'' PNone) (\<lambda>v.
         if_then (v = PStr ''host'') (compose_add_issue file_path service_name ''host_pid'')),
       with_val (get service_config ''ipc'' PNone) (\<lambda>v.
         if_then (v = PStr ''host'') (compose_add_issue file_path service_name ''host_ipc'')),
       with_val (get service_config ''volumes'' (PList [])) (\<lambda>volumes.
         with_val (iterate volumes) (\<lambda>vs.
           for_each vs (\<lambda>volume.
             case volume of
               PStr s \<Rightarrow>
                 if_then (str_contains s ''/var/run/docker.sock'')
                   (compose_add_issue file_path service_name ''docker_socket_mount'')
             | PDict kvs \<Rightarrow>
                 with_val (get volume ''source'' PNone) (\<lambda>src.
                   if_then (src = PStr ''/var/run/docker.sock'')
                     (compose_add_issue file_path service_name ''docker_socket_mount''))
             | _ \<Rightarrow> skip))),
       with_val (get service_config ''read_only'' PNone) (\<lambda>v.
         if_then (\<not> truthy v) (compose_add_issue file_path service_name ''root_filesystem_writable'')),
       with_val (get service_config ''user'' PNone) (\<lambda>v.
         if_then (\<not> truthy v) (compose_add_issue file_path service_name ''no_user_specified'')),
       with_val (get service_config ''cap_add'' (PList [])) (\<lambda>cap_add.
         with_val (iterate cap_add) (\<lambda>caps.
           for_each caps (\<lambda>cap.
             if_then (cap \<in> PStr ` set dangerous_caps)
               (compose_add_issue file_path service_name ''insecure_capabilities'')))),
       with_val (get service_config ''ports'' (PList [])) (\<lambda>ports.
         with_val (iterate ports) (\<lambda>ps.
           for_each ps (\<lambda>port.
             if_then (case port of PStr s \<Rightarrow> startswith s ''0.0.0.0:'' | _ \<Rightarrow> False)
               (compose_add_issue file_path service_name ''host_port_binding'')))),
       with_val (get service_config ''environment'' (PDict [])) (\<lambda>environment.
         with_val (case environment of
                     PList xs \<Rightarrow> Inr xs
                   | _ \<Rightarrow> (case items environment of
                             Inl e \<Rightarrow> Inl e
                           | Inr kvs \<Rightarrow> Inr (map (\<lambda>(k, v). PStr (str k @ ''='' @ str v)) kvs)))
           (\<lambda>env_vars. for_each env_vars (scan_env_var file_path service_name)))]"

text \<open>
  \<^verbatim>\<open>DockerComposeSecurityScanner.scan_compose_file\<close>. \<open>load file_path\<close> is what
  \<^verbatim>\<open>open\<close> and \<^verbatim>\<open>yaml.safe_load\<close> give for the file: the document, or the
  exception they raise.
\<close>

definition compose_parse_error :: "string \<Rightarrow> exn \<Rightarrow> compose_issue" where
  "compose_parse_error file_path e =
     \<lparr>file' = file_path,
      rule = ''parse_error'',
      severity = ''high'',
      description = ''Failed to parse Docker Compose file: '' @ str_exn e,
      recommendation = ''Fix YAML syntax errors in Docker Compose file'',
      service = PStr ''N/A''\<rparr>"

definition scan_compose_file ::
  "(string \<Rightarrow> exn + pyval) \<Rightarrow> string \<Rightarrow> compose_issue list \<Rightarrow> compose_issue list" where
  "scan_compose_file load file_path =
     try_except
       (with_val (load file_path) (\<lambda>compose_data.
          if \<not> truthy compose_data then skip
          else with_val (contains ''services'' compose_data) (\<lambda>has_services.
            if \<not> has_services then skip
            else with_val (subscript compose_data ''services'') (\<lambda>services.
              with_val (items services) (\<lambda>kvs.
                for_each kvs (\<lambda>(service_name, service_config).
                  scan_service file_path service_name service_config))))))
       (\<lambda>e issues. issues @ [compose_parse_error file_path e])"

section \<open>github-actions-security.py\<close>

definition actions_security_rules :: "(string \<times> (string \<times> string) list) list" where
  "actions_security_rules =
   [(''pull_request_target_checkout'',
       [(''severity'', ''critical''),
        (''description'', ''pull_request_target with checkout of PR code''),
        (''recommendation'', ''Use pull_request trigger or checkout specific ref'')]),
    (''script_injection'',
       [(''severity'', ''critical''),
        (''description'', ''Potential script injection vulnerability''),
        (''recommendation'', ''Use environment variables instead of direct interpolation'')]),
    (''third_party_action_no_pin'',
       [(''severity'', ''high''),
        (''description'', ''Third-party action not pinned to specific version''),
        (''recommendation'', ''Pin actions to specific commit SHA or version tag'')]),
    (''secrets_in_environment'',
       [(''severity'', ''high''),
        (''description'', ''Secrets exposed in environment variables''),
        (''recommendation'', ''Use secrets context only when necessary'')]),
    (''write_permissions_broad'',
       [(''severity'', ''medium''),
        (''description'', ''Broad write permissions granted''),
        (''recommendation'', ''Use minimal required permissions'')]),
    (''self_hosted_runner'',
       [(''severity'', ''medium''),
        (''description'', ''Using self-hosted runners''),
        (''recommendation'', ''Ensure self-hosted runners are properly secured'')]),
    (''artifact_upload_no_retention'',
       [(''severity'', ''low''),
        (''description'', ''Artifact upload without retention policy''),
        (''recommendation'', ''Set appropriate retention period for artifacts'')]),
    (''cache_key_predictable'',
       [(''severity'', ''low''),
        (''description'', ''Predictable cache keys may lead to cache poisoning''),
        (''recommendation'', ''Use unique, unpredictable cache keys'')])]"

text \<open>\<^verbatim>\<open>GitHubActionsSecurityScanner._add_issue\<close>.\<close>

definition actions_add_issue ::
  "string \<Rightarrow> pyval \<Rightarrow> pyval \<Rightarrow> string \<Rightarrow> workflow_issue list stmt" where
  "actions_add_issue file_path job_name step_name rule_name issues =
     (let rule' = lookup_or actions_security_rules rule_name [] in
      (issues @
       [\<lparr>file' = file_path,
         rule = rule_name,
         severity = lookup_or rule' ''severity'' ''unknown'',
         description = lookup_or rule' ''description'' ''Unknown security issue'',
         recommendation = lookup_or rule' ''recommendation'' ''Review configuration'',
         job = job_name,
         step = step_name\<rparr>], None))"

text \<open>\<^verbatim>\<open>GitHubActionsSecurityScanner._check_triggers\<close>.\<close>

definition check_triggers :: "string \<Rightarrow> pyval \<Rightarrow> workflow_issue list stmt" where
  "check_triggers file_path triggers =
     with_val (contains ''pull_request_target'' triggers) (\<lambda>found.
       if_then found
         (actions_add_issue file_path (PStr ''trigger'') (PStr ''pull_request_target'')
            ''pull_request_target_checkout''))"

text \<open>
  The condition of the \<^verbatim>\<open>if\<close> at lines 131-132 of \<^verbatim>\<open>_scan_step\<close>, with Python's
  evaluation from left to right: \<^verbatim>\<open>version_part[0]\<close> is read only when the two
  tests before it did not decide.
\<close>

definition not_pinned :: "string \<Rightarrow> exn + bool" where
  "not_pinned version_part =
     (if \<not> (length version_part = 40
             \<and> list_all (\<lambda>c. c \<in> set ''0123456789abcdef'') (lower version_part))
      then if \<not> startswith version_part ''v''
           then (case str_index version_part 0 of
                   Inl e \<Rightarrow> Inl e
                 | Inr c \<Rightarrow> Inr (\<not> isdigit c))
           else Inr False
      else Inr False)"

text \<open>\<^verbatim>\<open>any(k in v for k in ks)\<close>, and a loop over \<open>ks\<close> that stops at the first hit.\<close>

fun any_in :: "string list \<Rightarrow> pyval \<Rightarrow> exn + bool" where
  "any_in [] v = Inr False"
| "any_in (k # ks) v =
     (case contains k v of Inl e \<Rightarrow> Inl e | Inr True \<Rightarrow> Inr True | Inr False \<Rightarrow> any_in ks v)"

text \<open>\<^verbatim>\<open>v.startswith(p)\<close>: only a string has the method.\<close>

definition startswith_method :: "pyval \<Rightarrow> string \<Rightarrow> exn + bool" where
  "startswith_method v p =
     (case v of PStr s \<Rightarrow> Inr (startswith s p) | _ \<Rightarrow> Inl (no_attribute v ''startswith''))"

text \<open>The blocks of \<^verbatim>\<open>_scan_step\<close>, in the order of the source.\<close>

definition check_action_pin ::
  "string \<Rightarrow> pyval \<Rightarrow> pyval \<Rightarrow> pyval \<Rightarrow> workflow_issue list stmt" where
  "check_action_pin file_path job_name step_name uses =
     if_then (truthy uses)
       (with_val (startswith_method uses ''./'') (\<lambda>local.
          if_then (\<not> local)
            (with_val (startswith_method uses ''docker://'') (\<lambda>docker.
               if_then (\<not> docker)
                 (with_val (contains ''@'' uses) (\<lambda>has_at.
                    if has_at then
                      (case uses of
                         PStr u \<Rightarrow>
                           with_val (list_index (split CHR ''@'' u) 1) (\<lambda>version_part.
                             with_val (not_pinned version_part) (\<lambda>unpinned.
                               if_then unpinned
                                 (actions_add_issue file_path job_name step_name
                                    ''third_party_action_no_pin'')))
                       | _ \<Rightarrow> (\<lambda>issues. (issues, Some (no_attribute uses ''split''))))
                    else actions_add_issue file_path job_name step_name
                           ''third_party_action_no_pin''))))))"

definition check_script_injection ::
  "string \<Rightarrow> pyval \<Rightarrow> pyval \<Rightarrow> pyval \<Rightarrow> workflow_issue list stmt" where
  "check_script_injection file_path job_name step_name run_command =
     if_then (truthy run_command)
       (with_val (contains ''${{'' run_command) (\<lambda>templated.
          if_then templated
            (with_val (any_in [''github.event.'', ''github.head_ref'', ''github.base_ref''] run_command)
               (\<lambda>dangerous.
                  if_then dangerous
                    (actions_add_issue file_path job_name step_name ''script_injection'')))))"

definition check_env_secrets ::
  "string \<Rightarrow> pyval \<Rightarrow> pyval \<Rightarrow> pyval \<Rightarrow> workflow_issue list stmt" where
  "check_env_secrets file_path job_name step_name env =
     with_val (items env) (\<lambda>kvs.
       for_each kvs (\<lambda>(env_name, env_value).
         case env_value of
           PStr value \<Rightarrow>
             if_then (str_contains value ''secrets.'')
               (case env_name of
                  PStr name \<Rightarrow>
                    if_then (list_ex (\<lambda>keyword. str_contains (lower name) keyword)
                               [''url'', ''endpoint'', ''host''])
                      (actions_add_issue file_path job_name step_name ''secrets_in_environment'')
                | _ \<Rightarrow> (\<lambda>issues. (issues, Some (no_attribute env_name ''lower''))))
         | _ \<Rightarrow> skip))"

definition check_artifact_retention ::
  "string \<Rightarrow> pyval \<Rightarrow> pyval \<Rightarrow> pyval \<Rightarrow> pyval \<Rightarrow> workflow_issue list stmt" where
  "check_artifact_retention file_path job_name step_name step_config uses =
     with_val (startswith_method uses ''actions/upload-artifact'') (\<lambda>upload.
       if_then upload
         (with_val (get step_config ''with'' (PDict [])) (\<lambda>with_config.
            with_val (contains ''retention-days'' with_config) (\<lambda>has_retention.
              if_then (\<not> has_retention)
                (actions_add_issue file_path job_name step_name
                   ''artifact_upload_no_retention'')))))"

definition check_cache_key ::
  "string \<Rightarrow> pyval \<Rightarrow> pyval \<Rightarrow> pyval \<Rightarrow> pyval \<Rightarrow> workflow_issue list stmt" where
  "check_cache_key file_path job_name step_name step_config uses =
     with_val (startswith_method uses ''actions/cache'') (\<lambda>cache.
       if_then cache
         (with_val (get step_config ''with'' (PDict [])) (\<lambda>with_config.
            with_val (get with_config ''key'' (PStr [])) (\<lambda>key.
              if_then (truthy key)
                (with_val (any_in [''${{'', ''hashFiles'', ''runner.os''] key) (\<lambda>dynamic.
                   if_then (\<not> dynamic)
                     (actions_add_issue file_path job_name step_name
                        ''cache_key_predictable'')))))))"

text \<open>\<^verbatim>\<open>GitHubActionsSecurityScanner._scan_step\<close>.\<close>

definition scan_step :: "string \<Rightarrow> pyval \<Rightarrow> nat \<Rightarrow> pyval \<Rightarrow> workflow_issue list stmt" where
  "scan_step file_path job_name step_index step_config =
     with_val (get step_config ''name'' (PStr (''step-'' @ str_nat step_index))) (\<lambda>step_name.
       with_val (get step_config ''uses'' (PStr [])) (\<lambda>uses.
         block [
           check_action_pin file_path job_name step_name uses,
           with_val (get step_config ''run'' (PStr []))
             (check_script_injection file_path job_name step_name),
           with_val (get step_config ''env'' (PDict []))
             (check_env_secrets file_path job_name step_name),
           check_artifact_retention file_path job_name step_name step_config uses,
           check_cache_key file_path job_name step_name step_config uses]))"

text \<open>\<^verbatim>\<open>GitHubActionsSecurityScanner._scan_job\<close>.\<close>

definition scan_job :: "string \<Rightarrow> pyval \<Rightarrow> pyval \<Rightarrow> workflow_issue list stmt" where
  "scan_job file_path job_name job_config =
     block [
       with_val (get job_config ''permissions'' (PDict [])) (\<lambda>permissions.
         case permissions of
           PDict kvs \<Rightarrow>
             (let write_perms = map fst (filter (\<lambda>(k, v). v = PStr ''write'') kvs) in
              if_then (length write_perms > 3)
                (actions_add_issue file_path job_name (PStr ''permissions'')
                   ''write_permissions_broad''))
         | _ \<Rightarrow> skip),
       with_val (get job_config ''runs-on'' (PStr [])) (\<lambda>runs_on.
         if_then (case runs_on of PStr s \<Rightarrow> str_contains s ''self-hosted'' | _ \<Rightarrow> False)
           (actions_add_issue file_path job_name (PStr ''runner'') ''self_hosted_runner'')),
       with_val (get job_config ''steps'' (PList [])) (\<lambda>steps.
         with_val (iterate steps) (\<lambda>ss.
           for_each (zip [0 ..< length ss] ss) (\<lambda>(i, step_config).
             scan_step file_path job_name i step_config)))]"

text \<open>
  \<^verbatim>\<open>GitHubActionsSecurityScanner.scan_workflow_file\<close>; \<open>load\<close> as for the compose
  scanner.
\<close>

definition workflow_parse_error :: "string \<Rightarrow> exn \<Rightarrow> workflow_issue" where
  "workflow_parse_error file_path e =
     \<lparr>file' = file_path,
      rule = ''parse_error'',
      severity = ''high'',
      description = ''Failed to parse workflow file: '' @ str_exn e,
      recommendation = ''Fix YAML syntax errors in workflow file'',
      job = PStr ''N/A'',
      step = PStr ''N/A''\<rparr>"

definition scan_workflow_file ::
  "(string \<Rightarrow> exn + pyval) \<Rightarrow> string \<Rightarrow> workflow_issue list \<Rightarrow> workflow_issue list" where
  "scan_workflow_file load file_path =
     try_except
       (with_val (load file_path) (\<lambda>workflow_data.
          if \<not> truthy workflow_data then skip
          else block [
            with_val (get workflow_data ''on'' (PDict [])) (check_triggers file_path),
            with_val (get workflow_data ''jobs'' (PDict [])) (\<lambda>jobs.
              with_val (items jobs) (\<lambda>kvs.
                for_each kvs (\<lambda>(job_name, job_config).
                  scan_job file_path job_name job_config)))]))
       (\<lambda>e issues. issues @ [workflow_parse_error file_path e])"

text \<open>
  \<^verbatim>\<open>GitHubActionsSecurityScanner.scan_workflows_directory\<close>; \<open>workflow_files\<close> is
  the list of paths that the two \<^verbatim>\<open>glob\<close> calls give.
\<close>

fun scan_workflows_directory ::
  "(string \<Rightarrow> exn + pyval) \<Rightarrow> string list \<Rightarrow> workflow_issue list \<Rightarrow> workflow_issue list" where
  "scan_workflows_directory load [] issues = issues"
| "scan_workflows_directory load (workflow_file # workflow_files) issues =
     scan_workflows_directory load workflow_files (scan_workflow_file load workflow_file issues)"

section \<open>security-quality-gate.py\<close>

subsection \<open>Configuration, inputs and results\<close>

text \<open>
  The configuration file, with the keys the gate reads and the types the configuration
  gives them (flags are booleans, thresholds and weights integers); a key that the file
  leaves out is \<open>None\<close>. The fields \<open>cfg_sast\<close> to \<open>cfg_global\<close> are the top-level keys
  \<^verbatim>\<open>sast\<close>, \<^verbatim>\<open>dependencies\<close>, \<^verbatim>\<open>containers\<close>, \<^verbatim>\<open>iac\<close>, \<^verbatim>\<open>secrets\<close>,
  \<^verbatim>\<open>security_debt\<close> and \<^verbatim>\<open>global\<close>; \<open>category_enabled\<close> is the key
  \<^verbatim>\<open>enabled\<close> of a category and \<open>global_fail_on_critical\<close> the key
  \<^verbatim>\<open>fail_on_critical\<close> of \<^verbatim>\<open>global\<close>.
\<close>

record tool_config =
  enabled :: "bool option"
  fail_on_critical :: "bool option"
  fail_on_high :: "bool option"
  max_issues :: "int option"
  max_critical :: "int option"
  max_high :: "int option"

record category_config =
  category_enabled :: "bool option"
  tools :: "(string \<times> tool_config) list option"

record debt_config =
  scoring :: "(string \<times> int) list option"
  max_total_debt :: "int option"

record global_config =
  global_fail_on_critical :: "bool option"
  fail_on_high_threshold :: "int option"

record gate_config =
  cfg_sast :: "category_config option"
  cfg_dependencies :: "category_config option"
  cfg_containers :: "category_config option"
  cfg_iac :: "category_config option"
  cfg_secrets :: "category_config option"
  cfg_security_debt :: "debt_config option"
  cfg_global :: "global_config option"

text \<open>
  What the gate reads from the working directory: \<open>eslint_results\<close> is \<open>None\<close> when
  \<^verbatim>\<open>eslint-security-results.json\<close> does not exist, and otherwise what
  \<^verbatim>\<open>open\<close> and \<^verbatim>\<open>json.load\<close> give for it; \<open>npm_audit_files\<close> holds the same
  for each file \<^verbatim>\<open>npm-audit-*.json\<close> that \<^verbatim>\<open>os.walk\<close> finds.
\<close>

record gate_inputs =
  eslint_results :: "(exn + pyval) option"
  npm_audit_files :: "(exn + pyval) list"

text \<open>
  An entry of \<^verbatim>\<open>failed_gates\<close> or \<^verbatim>\<open>passed_gates\<close>; its \<^verbatim>\<open>timestamp\<close>, the
  wall-clock time of the call, is left out.
\<close>

record gate_entry =
  gate :: string
  reason :: string

record results =
  passed :: bool
  total_issues :: int
  critical_issues :: int
  high_issues :: int
  medium_issues :: int
  low_issues :: int
  security_debt :: int
  failed_gates :: "gate_entry list"
  passed_gates :: "gate_entry list"
  exempted_issues :: int

text \<open>\<^verbatim>\<open>self.results\<close> as \<^verbatim>\<open>SecurityQualityGate.__init__\<close> sets it.\<close>

definition init_results :: results where
  "init_results =
     \<lparr>passed = True, total_issues = 0, critical_issues = 0, high_issues = 0,
      medium_issues = 0, low_issues = 0, security_debt = 0,
      failed_gates = [], passed_gates = [], exempted_issues = 0\<rparr>"

text \<open>\<^verbatim>\<open>d[k]\<close> on the configuration: a missing key raises \<^verbatim>\<open>KeyError\<close>.\<close>

definition require :: "'a option \<Rightarrow> string \<Rightarrow> exn + 'a" where
  "require v k = (case v of Some x \<Rightarrow> Inr x | None \<Rightarrow> Inl (KeyError (repr_str k)))"

text \<open>\<^verbatim>\<open>d.get(k, default)\<close> on the configuration.\<close>

definition get_or :: "'a option \<Rightarrow> 'a \<Rightarrow> 'a" where
  "get_or v dflt = (case v of Some x \<Rightarrow> x | None \<Rightarrow> dflt)"

text \<open>\<^verbatim>\<open>self.config.get(category, {}).get('enabled', True)\<close>.\<close>

definition is_category_enabled :: "category_config option \<Rightarrow> bool" where
  "is_category_enabled c = (case c of None \<Rightarrow> True | Some cat \<Rightarrow> get_or (category_enabled cat) True)"

text \<open>\<^verbatim>\<open>tools.get(name, {}).get('enabled', True)\<close>.\<close>

definition is_tool_enabled :: "(string \<times> tool_config) list \<Rightarrow> string \<Rightarrow> bool" where
  "is_tool_enabled ts name = (case map_of ts name of None \<Rightarrow> True | Some t \<Rightarrow> get_or (enabled t) True)"

text \<open>\<^verbatim>\<open>self.config[category]['tools'][name]\<close>.\<close>

definition tool_section :: "category_config option \<Rightarrow> string \<Rightarrow> string \<Rightarrow> exn + tool_config" where
  "tool_section c category name =
     (case require c category of
        Inl e \<Rightarrow> Inl e
      | Inr cat \<Rightarrow>
          (case require (tools cat) ''tools'' of
             Inl e \<Rightarrow> Inl e
           | Inr ts \<Rightarrow> require (map_of ts name) name))"

subsection \<open>Recording a gate\<close>

text \<open>\<^verbatim>\<open>SecurityQualityGate._fail_gate\<close> and \<^verbatim>\<open>_pass_gate\<close>.\<close>

definition fail_gate :: "string \<Rightarrow> string \<Rightarrow> results stmt" where
  "fail_gate gate_name reason' r =
     (r\<lparr>passed := False,
        failed_gates := failed_gates r @ [\<lparr>gate = gate_name, reason = reason'\<rparr>]\<rparr>, None)"

definition pass_gate :: "string \<Rightarrow> string \<Rightarrow> results stmt" where
  "pass_gate gate_name reason' r =
     (r\<lparr>passed_gates := passed_gates r @ [\<lparr>gate = gate_name, reason = reason'\<rparr>]\<rparr>, None)"

subsection \<open>The checks of the single tools\<close>

text \<open>
  The value a counting loop leaves in its counters when started from \<open>init\<close>, or the
  exception that ended it.
\<close>

definition counted :: "'c \<Rightarrow> 'c stmt \<Rightarrow> exn + 'c" where
  "counted init loop = (case loop init of (c, None) \<Rightarrow> Inr c | (c, Some e) \<Rightarrow> Inl e)"

text \<open>The loop of \<^verbatim>\<open>_check_eslint_security\<close> (lines 146-153) on \<^verbatim>\<open>high_count\<close>.\<close>

definition eslint_count_loop :: "pyval \<Rightarrow> int stmt" where
  "eslint_count_loop data =
     with_val (iterate data) (\<lambda>rs.
       for_each rs (\<lambda>result.
         with_val (get result ''messages'' (PList [])) (\<lambda>messages.
           with_val (iterate messages) (\<lambda>ms.
             for_each ms (\<lambda>message.
               with_val (get message ''severity'' (PInt 1)) (\<lambda>severity.
                 if_then (severity = PInt 2) (\<lambda>high_count. (high_count + 1, None))))))))"

text \<open>
  \<^verbatim>\<open>SecurityQualityGate._check_eslint_security\<close>. Whatever the body of the
  \<^verbatim>\<open>try\<close> raises is printed and dropped.
\<close>

definition check_eslint_security :: "gate_config \<Rightarrow> gate_inputs \<Rightarrow> results stmt" where
  "check_eslint_security config inputs =
     (case eslint_results inputs of
        None \<Rightarrow> skip
      | Some loaded \<Rightarrow> (\<lambda>r.
          (try_except
             (with_val loaded (\<lambda>data.
                let critical_count = (0::int) in
                with_val (counted 0 (eslint_count_loop data)) (\<lambda>high_count.
                  with_val (tool_section (cfg_sast config) ''sast'' ''eslint_security'') (\<lambda>tool.
                    seq
                      (if get_or (fail_on_critical tool) False \<and> critical_count > 0 then
                         fail_gate ''ESLint Security''
                           (''Critical issues found: '' @ str_int critical_count)
                       else if get_or (fail_on_high tool) False \<and> high_count > 0 then
                         fail_gate ''ESLint Security''
                           (''High severity issues found: '' @ str_int high_count)
                       else if high_count > get_or (max_issues tool) 0 then
                         fail_gate ''ESLint Security''
                           (''Issues exceed threshold: '' @ str_int high_count @ '' > ''
                            @ str_int (get_or (max_issues tool) 0))
                       else
                         pass_gate ''ESLint Security''
                           (''Issues within threshold: '' @ str_int high_count))
                      (\<lambda>r. (r\<lparr>high_issues := high_issues r + high_count\<rparr>, None))))))
             (\<lambda>e r. r) r, None)))"

text \<open>The checks that record a pass without reading any result.\<close>

definition check_semgrep :: "results stmt" where
  "check_semgrep = pass_gate ''Semgrep'' ''No critical issues found''"

definition check_codeql :: "results stmt" where
  "check_codeql = pass_gate ''CodeQL'' ''No critical issues found''"

definition check_sonarcloud :: "results stmt" where
  "check_sonarcloud = pass_gate ''SonarCloud'' ''Quality gate passed''"

definition check_snyk :: "results stmt" where
  "check_snyk = pass_gate ''Snyk'' ''No critical vulnerabilities found''"

definition check_osv_scanner :: "results stmt" where
  "check_osv_scanner = pass_gate ''OSV Scanner'' ''No critical vulnerabilities found''"

definition check_trivy :: "results stmt" where
  "check_trivy = pass_gate ''Trivy'' ''No critical container vulnerabilities found''"

definition check_grype :: "results stmt" where
  "check_grype = pass_gate ''Grype'' ''No critical container vulnerabilities found''"

definition check_checkov :: "results stmt" where
  "check_checkov = pass_gate ''Checkov'' ''No critical IaC issues found''"

definition check_kics :: "results stmt" where
  "check_kics = pass_gate ''KICS'' ''No critical IaC issues found''"

definition check_hadolint :: "results stmt" where
  "check_hadolint = pass_gate ''Hadolint'' ''No critical Dockerfile issues found''"

definition check_trufflehog :: "results stmt" where
  "check_trufflehog = pass_gate ''TruffleHog'' ''No verified secrets found''"

text \<open>\<^verbatim>\<open>v.lower()\<close>: only a string has the method.\<close>

definition lower_method :: "pyval \<Rightarrow> exn + string" where
  "lower_method v = (case v of PStr s \<Rightarrow> Inr (lower s) | _ \<Rightarrow> Inl (no_attribute v ''lower''))"

text \<open>
  The body of the \<^verbatim>\<open>try\<close> in \<^verbatim>\<open>_check_npm_audit\<close> (lines 210-219) on the pair
  \<^verbatim>\<open>(total_critical, total_high)\<close>; what it counted before an exception stays counted.
\<close>

definition npm_count_file :: "exn + pyval \<Rightarrow> (int \<times> int) stmt" where
  "npm_count_file loaded =
     with_val loaded (\<lambda>data.
       with_val (get data ''vulnerabilities'' (PDict [])) (\<lambda>vulnerabilities.
         with_val (items vulnerabilities) (\<lambda>kvs.
           for_each kvs (\<lambda>(package, vuln_data).
             with_val (get vuln_data ''severity'' (PStr [])) (\<lambda>sev.
               with_val (lower_method sev) (\<lambda>severity (total_critical, total_high).
                 if severity = ''critical'' then ((total_critical + 1, total_high), None)
                 else if severity = ''high'' then ((total_critical, total_high + 1), None)
                 else ((total_critical, total_high), None)))))))"

text \<open>\<^verbatim>\<open>SecurityQualityGate._check_npm_audit\<close>.\<close>

definition check_npm_audit :: "gate_config \<Rightarrow> gate_inputs \<Rightarrow> results stmt" where
  "check_npm_audit config inputs =
     (let audit_files = npm_audit_files inputs in
      if audit_files = [] then skip
      else
        (let (total_critical, total_high) =
               fold (\<lambda>audit_file. try_except (npm_count_file audit_file) (\<lambda>e c. c))
                 audit_files (0, 0)
         in with_val (tool_section (cfg_dependencies config) ''dependencies'' ''npm_audit'') (\<lambda>tool.
              block [
                if get_or (fail_on_critical tool) False
                   \<and> total_critical > get_or (max_critical tool) 0 then
                  fail_gate ''NPM Audit''
                    (''Critical vulnerabilities: '' @ str_int total_critical @ '' > ''
                     @ str_int (get_or (max_critical tool) 0))
                else if get_or (fail_on_high tool) False
                        \<and> total_high > get_or (max_high tool) 0 then
                  fail_gate ''NPM Audit''
                    (''High vulnerabilities: '' @ str_int total_high @ '' > ''
                     @ str_int (get_or (max_high tool) 0))
                else
                  pass_gate ''NPM Audit''
                    (''Vulnerabilities within threshold: C:'' @ str_int total_critical
                     @ '', H:'' @ str_int total_high),
                (\<lambda>r. (r\<lparr>critical_issues := critical_issues r + total_critical\<rparr>, None)),
                (\<lambda>r. (r\<lparr>high_issues := high_issues r + total_high\<rparr>, None))])))"

subsection \<open>The checks of the categories\<close>

text \<open>
  The common shape of \<^verbatim>\<open>check_sast_gates\<close> to \<^verbatim>\<open>check_secrets_gates\<close>: return when
  the category is disabled, read \<^verbatim>\<open>self.config[category]\<close>, then run the check of each
  tool that is not disabled, in the order of the source.
\<close>

definition check_category ::
  "category_config option \<Rightarrow> string \<Rightarrow> (string \<times> results stmt) list \<Rightarrow> results stmt" where
  "check_category c category checks =
     (if \<not> is_category_enabled c then skip
      else with_val (require c category) (\<lambda>cat.
             let category_tools = get_or (tools cat) [] in
             block (map (\<lambda>(name, check). if_then (is_tool_enabled category_tools name) check)
                      checks)))"

definition check_sast_gates :: "gate_config \<Rightarrow> gate_inputs \<Rightarrow> results stmt" where
  "check_sast_gates config inputs =
     check_category (cfg_sast config) ''sast''
       [(''eslint_security'', check_eslint_security config inputs),
        (''semgrep'', check_semgrep),
        (''codeql'', check_codeql),
        (''sonarcloud'', check_sonarcloud)]"

definition check_dependency_gates :: "gate_config \<Rightarrow> gate_inputs \<Rightarrow> results stmt" where
  "check_dependency_gates config inputs =
     check_category (cfg_dependencies config) ''dependencies''
       [(''npm_audit'', check_npm_audit config inputs),
        (''snyk'', check_snyk),
        (''osv_scanner'', check_osv_scanner)]"

definition check_container_gates :: "gate_config \<Rightarrow> results stmt" where
  "check_container_gates config =
     check_category (cfg_containers config) ''containers''
       [(''trivy'', check_trivy), (''grype'', check_grype)]"

definition check_iac_gates :: "gate_config \<Rightarrow> results stmt" where
  "check_iac_gates config =
     check_category (cfg_iac config) ''iac''
       [(''checkov'', check_checkov), (''kics'', check_kics), (''hadolint'', check_hadolint)]"

definition check_secrets_gates :: "gate_config \<Rightarrow> results stmt" where
  "check_secrets_gates config =
     check_category (cfg_secrets config) ''secrets'' [(''trufflehog'', check_trufflehog)]"

subsection \<open>Debt, global thresholds and the whole run\<close>

definition default_scoring :: "(string \<times> int) list" where
  "default_scoring =
     [(''critical'', 50), (''high'', 20), (''medium'', 5), (''low'', 1), (''info'', 0)]"

text \<open>\<^verbatim>\<open>SecurityQualityGate.calculate_security_debt\<close>.\<close>

definition calculate_security_debt :: "gate_config \<Rightarrow> results stmt" where
  "calculate_security_debt config r =
     (let scoring' = (case cfg_security_debt config of
                        None \<Rightarrow> default_scoring
                      | Some d \<Rightarrow> get_or (scoring d) default_scoring);
          debt = critical_issues r * lookup_or scoring' ''critical'' 50
               + high_issues r * lookup_or scoring' ''high'' 20
               + medium_issues r * lookup_or scoring' ''medium'' 5
               + low_issues r * lookup_or scoring' ''low'' 1;
          r1 = r\<lparr>security_debt := debt\<rparr>;
          max_debt = (case cfg_security_debt config of
                        None \<Rightarrow> 100
                      | Some d \<Rightarrow> get_or (max_total_debt d) 100)
      in if debt > max_debt then
           fail_gate ''Security Debt''
             (''Total debt '' @ str_int debt @ '' exceeds maximum '' @ str_int max_debt) r1
         else
           pass_gate ''Security Debt''
             (''Total debt '' @ str_int debt @ '' within limit '' @ str_int max_debt) r1)"

text \<open>\<^verbatim>\<open>SecurityQualityGate.check_global_thresholds\<close>.\<close>

definition check_global_thresholds :: "gate_config \<Rightarrow> results stmt" where
  "check_global_thresholds config =
     (let fail_on_critical' = (case cfg_global config of
                                 None \<Rightarrow> True
                               | Some g \<Rightarrow> get_or (global_fail_on_critical g) True);
          high_threshold = (case cfg_global config of
                              None \<Rightarrow> 5
                            | Some g \<Rightarrow> get_or (fail_on_high_threshold g) 5)
      in block [
           (\<lambda>r. if_then (fail_on_critical' \<and> critical_issues r > 0)
                  (fail_gate ''Global Critical Threshold''
                     (''Critical issues found: '' @ str_int (critical_issues r))) r),
           (\<lambda>r. if_then (high_issues r > high_threshold)
                  (fail_gate ''Global High Threshold''
                     (''High issues '' @ str_int (high_issues r) @ '' exceed threshold ''
                      @ str_int high_threshold)) r)])"

text \<open>
  \<^verbatim>\<open>SecurityQualityGate.run_all_checks\<close> up to the report: the state it leaves is
  \<^verbatim>\<open>self.results\<close>, and the value it returns is the field \<open>passed\<close> of that state.
  Printing and the report file are not modelled.
\<close>

definition run_all_checks :: "gate_config \<Rightarrow> gate_inputs \<Rightarrow> results stmt" where
  "run_all_checks config inputs =
     block [
       check_sast_gates config inputs,
       check_dependency_gates config inputs,
       check_container_gates config,
       check_iac_gates config,
       check_secrets_gates config,
       calculate_security_debt config,
       check_global_thresholds config]"

section \<open>The severity tables of the report generators\<close>

text \<open>\<^verbatim>\<open>v.upper()\<close>: only a string has the method.\<close>

definition upper_method :: "pyval \<Rightarrow> exn + nat list" where
  "upper_method v = (case v of PStr s \<Rightarrow> Inr (upper s) | _ \<Rightarrow> Inl (no_attribute v ''upper''))"

text \<open>\<^verbatim>\<open>DependencyReportGenerator._map_osv_severity\<close>.\<close>

definition map_osv_severity :: "pyval \<Rightarrow> exn + string" where
  "map_osv_severity severity' =
     (case upper_method severity' of
        Inl e \<Rightarrow> Inl e
      | Inr u \<Rightarrow>
          Inr (lookup_or [(codes ''CRITICAL'', ''critical''), (codes ''HIGH'', ''high''),
                          (codes ''MODERATE'', ''medium''), (codes ''LOW'', ''low'')]
                 u ''medium''))"

text \<open>\<^verbatim>\<open>IaCReportGenerator._map_checkov_severity\<close>.\<close>

definition map_checkov_severity :: "pyval \<Rightarrow> exn + string" where
  "map_checkov_severity severity' =
     (case upper_method severity' of
        Inl e \<Rightarrow> Inl e
      | Inr u \<Rightarrow>
          Inr (lookup_or [(codes ''CRITICAL'', ''critical''), (codes ''HIGH'', ''high''),
                          (codes ''MEDIUM'', ''medium''), (codes ''LOW'', ''low''),
                          (codes ''INFO'', ''info'')]
                 u ''medium''))"

text \<open>\<^verbatim>\<open>DASTReportGenerator._map_nuclei_severity\<close>.\<close>

definition map_nuclei_severity :: "pyval \<Rightarrow> exn + string" where
  "map_nuclei_severity severity' =
     (case lower_method severity' of
        Inl e \<Rightarrow> Inl e
      | Inr l \<Rightarrow>
          Inr (lookup_or [(''critical'', ''Critical''), (''high'', ''High''),
                          (''medium'', ''Medium''), (''low'', ''Low''),
                          (''info'', ''Informational'')]
                 l ''Unknown''))"

text \<open>The counts \<^verbatim>\<open>self.summary\<close> of a report generator.\<close>

record summary =
  total :: int
  critical :: int
  high :: int
  medium :: int
  low :: int
  info :: int

text \<open>
  \<^verbatim>\<open>DependencyReportGenerator._update_summary\<close>; when \<^verbatim>\<open>severity.lower()\<close>
  raises, no count has changed.
\<close>

definition dependency_update_summary :: "pyval \<Rightarrow> summary \<Rightarrow> exn + summary" where
  "dependency_update_summary severity' s =
     (case lower_method severity' of
        Inl e \<Rightarrow> Inl e
      | Inr severity_lower \<Rightarrow>
          (let s1 = (if severity_lower = ''critical'' then s\<lparr>critical := critical s + 1\<rparr>
                     else if severity_lower = ''high'' then s\<lparr>high := high s + 1\<rparr>
                     else if severity_lower \<in> set [''medium'', ''moderate'']
                     then s\<lparr>medium := medium s + 1\<rparr>
                     else if severity_lower = ''low'' then s\<lparr>low := low s + 1\<rparr>
                     else s\<lparr>info := info s + 1\<rparr>)
           in Inr (s1\<lparr>total := total s1 + 1\<rparr>)))"

text \<open>\<^verbatim>\<open>IaCReportGenerator._update_summary\<close>.\<close>

definition iac_update_summary :: "pyval \<Rightarrow> summary \<Rightarrow> exn + summary" where
  "iac_update_summary severity' s =
     (case lower_method severity' of
        Inl e \<Rightarrow> Inl e
      | Inr severity_lower \<Rightarrow>
          (let s1 = (if severity_lower = ''critical'' then s\<lparr>critical := critical s + 1\<rparr>
                     else if severity_lower = ''high'' then s\<lparr>high := high s + 1\<rparr>
                     else if severity_lower = ''medium'' then s\<lparr>medium := medium s + 1\<rparr>
                     else if severity_lower = ''low'' then s\<lparr>low := low s + 1\<rparr>
                     else s\<lparr>info := info s + 1\<rparr>)
           in Inr (s1\<lparr>total := total s1 + 1\<rparr>)))"

text \<open>\<^verbatim>\<open>DASTReportGenerator._update_summary\<close>.\<close>

definition dast_update_summary :: "pyval \<Rightarrow> summary \<Rightarrow> exn + summary" where
  "dast_update_summary risk s =
     (case lower_method risk of
        Inl e \<Rightarrow> Inl e
      | Inr risk_lower \<Rightarrow>
          (let s1 = (if str_contains risk_lower ''critical'' then s\<lparr>critical := critical s + 1\<rparr>
                     else if str_contains risk_lower ''high'' then s\<lparr>high := high s + 1\<rparr>
                     else if str_contains risk_lower ''medium'' then s\<lparr>medium := medium s + 1\<rparr>
                     else if str_contains risk_lower ''low'' then s\<lparr>low := low s + 1\<rparr>
                     else s\<lparr>info := info s + 1\<rparr>)
           in Inr (s1\<lparr>total := total s1 + 1\<rparr>)))"

section \<open>Notions used in the statements\<close>

text \<open>The issue that \<^verbatim>\<open>_add_issue\<close> appends, for each of the two scanners.\<close>

definition compose_issue_of :: "string \<Rightarrow> pyval \<Rightarrow> string \<Rightarrow> compose_issue" where
  "compose_issue_of file_path service_name rule_name =
     last (fst (compose_add_issue file_path service_name rule_name []))"

definition workflow_issue_of :: "string \<Rightarrow> pyval \<Rightarrow> pyval \<Rightarrow> string \<Rightarrow> workflow_issue" where
  "workflow_issue_of file_path job_name step_name rule_name =
     last (fst (actions_add_issue file_path job_name step_name rule_name []))"

text \<open>
  A statement of a scanner emits within \<open>R\<close> when it only appends issues to the list,
  and every issue it appends has its rule in \<open>R\<close>.
\<close>

definition emits :: "string set \<Rightarrow> 'a issue_base_scheme list stmt \<Rightarrow> bool" where
  "emits R f = (\<forall>s. \<exists>new. fst (f s) = s @ new \<and> rule ` set new \<subseteq> R)"

definition other_step_rules :: "string set" where
  "other_step_rules = {''script_injection'', ''secrets_in_environment'',
                       ''artifact_upload_no_retention'', ''cache_key_predictable''}"

text \<open>
  The name under which \<^verbatim>\<open>_scan_step\<close> reports a step (line 122).
\<close>

definition step_name_of :: "(pyval \<times> pyval) list \<Rightarrow> nat \<Rightarrow> pyval" where
  "step_name_of kvs i =
     (case map_of kvs (PStr ''name'') of Some v \<Rightarrow> v | None \<Rightarrow> PStr (''step-'' @ str_nat i))"

text \<open>
  A statement appends when what it adds to the list of issues, and the exception it
  raises, do not depend on the issues found before.
\<close>

definition appends :: "'i list stmt \<Rightarrow> bool" where
  "appends f = (\<forall>s. f s = (s @ fst (f []), snd (f [])))"

text \<open>
  Three files for the examples: one that does not parse, a workflow triggered by
  \<^verbatim>\<open>pull_request_target\<close>, and a workflow whose second step has
  \<^verbatim>\<open>uses: actions/setup-node@\<close>.
\<close>

definition example_load :: "string \<Rightarrow> exn + pyval" where
  "example_load path =
     (if path = ''bad.yml'' then Inl (LoadError ''mapping values are not allowed here'')
      else if path = ''ok.yml'' then
        Inr (PDict [(PStr ''on'', PDict [(PStr ''pull_request_target'', PNone)])])
      else if path = ''ci.yml'' then
        Inr (PDict [(PStr ''jobs'', PDict [(PStr ''build'',
               PDict [(PStr ''steps'',
                       PList ([PDict [(PStr ''uses'', PStr ''actions/checkout@main'')]]
                              @ PDict [(PStr ''uses'', PStr (''actions/setup-node'' @ ''@''))]
                              # [PDict [(PStr ''run'', PStr ''make'')]]))])])])
      else Inl (LoadError ''No such file or directory''))"

text \<open>
  A statement keeps a relation \<open>R\<close> when \<open>R\<close> holds between the state it starts from
  and the state it leaves, whether it returns or raises.
\<close>

definition keeps :: "('s \<Rightarrow> 's \<Rightarrow> bool) \<Rightarrow> 's stmt \<Rightarrow> bool" where
  "keeps R f = (\<forall>s. R s (fst (f s)))"

text \<open>
  One step of the verdict: \<open>passed\<close> does not go back to true, \<open>failed_gates\<close> only
  grows, and when it grows the verdict is failed.
\<close>

definition gate_step :: "results \<Rightarrow> results \<Rightarrow> bool" where
  "gate_step r r' =
     ((passed r' \<longrightarrow> passed r)
      \<and> (\<exists>new. failed_gates r' = failed_gates r @ new \<and> (new \<noteq> [] \<longrightarrow> \<not> passed r')))"

text \<open>
  The table \<^verbatim>\<open>scoring\<close> and the limit \<^verbatim>\<open>max_debt\<close> that
  \<^verbatim>\<open>calculate_security_debt\<close> reads from the configuration.
\<close>

definition scoring_table :: "gate_config \<Rightarrow> (string \<times> int) list" where
  "scoring_table config =
     (case cfg_security_debt config of
        None \<Rightarrow> default_scoring
      | Some d \<Rightarrow> get_or (scoring d) default_scoring)"

definition max_debt_of :: "gate_config \<Rightarrow> int" where
  "max_debt_of config =
     (case cfg_security_debt config of None \<Rightarrow> 100 | Some d \<Rightarrow> get_or (max_total_debt d) 100)"

text \<open>
  The checks that read no result, each with the name of the gate it records.
\<close>

definition stub_checks :: "(results stmt \<times> string) list" where
  "stub_checks =
     [(check_semgrep, ''Semgrep''), (check_codeql, ''CodeQL''), (check_sonarcloud, ''SonarCloud''),
      (check_snyk, ''Snyk''), (check_osv_scanner, ''OSV Scanner''), (check_trivy, ''Trivy''),
      (check_grype, ''Grype''), (check_checkov, ''Checkov''), (check_kics, ''KICS''),
      (check_hadolint, ''Hadolint''), (check_trufflehog, ''TruffleHog'')]"

text \<open>
  A configuration with every category enabled and the debt limit \<open>max_debt\<close>; a
  working directory without result files; and one with a single NPM audit file that
  lists one critical, two high, one moderate and one low vulnerability.
\<close>

definition example_tool :: tool_config where
  "example_tool =
     \<lparr>enabled = Some True, fail_on_critical = Some True, fail_on_high = Some True,
      max_issues = Some 0, max_critical = Some 0, max_high = Some 0\<rparr>"

definition example_config :: "int \<Rightarrow> gate_config" where
  "example_config max_debt =
     \<lparr>cfg_sast = Some \<lparr>category_enabled = Some True,
                        tools = Some [(''eslint_security'', example_tool),
                                      (''semgrep'', example_tool)]\<rparr>,
      cfg_dependencies = Some \<lparr>category_enabled = Some True,
                                tools = Some [(''npm_audit'', example_tool)]\<rparr>,
      cfg_containers = Some \<lparr>category_enabled = Some True, tools = None\<rparr>,
      cfg_iac = Some \<lparr>category_enabled = Some True, tools = None\<rparr>,
      cfg_secrets = Some \<lparr>category_enabled = Some True, tools = None\<rparr>,
      cfg_security_debt = Some \<lparr>scoring = None, max_total_debt = Some max_debt\<rparr>,
      cfg_global = None\<rparr>"

definition absent_inputs :: gate_inputs where
  "absent_inputs = \<lparr>eslint_results = None, npm_audit_files = []\<rparr>"

definition example_inputs :: gate_inputs where
  "example_inputs =
     \<lparr>eslint_results = None,
      npm_audit_files =
        [Inr (PDict [(PStr ''vulnerabilities'',
                PDict [(PStr ''lodash'', PDict [(PStr ''severity'', PStr ''critical'')]),
                       (PStr ''minimist'', PDict [(PStr ''severity'', PStr ''high'')]),
                       (PStr ''axios'', PDict [(PStr ''severity'', PStr ''High'')]),
                       (PStr ''debug'', PDict [(PStr ''severity'', PStr ''moderate'')]),
                       (PStr ''ms'', PDict [(PStr ''severity'', PStr ''low'')])])])]\<rparr>"



section \<open>Facts about statements\<close>

lemma with_val_Inr: "with_val (Inr v) k = k v"
  by (rule ext) (simp add: with_val_def)

lemma with_val_Inl: "with_val (Inl e) k s = (s, Some e)"
  by (simp add: with_val_def)

lemma if_then_simps: "if_then True a = a" "if_then False a = skip"
  by (simp_all add: if_then_def)

lemma seq_skip: "seq skip a = a" "seq a skip = a"
  by (rule ext, simp add: seq_def skip_def split: prod.splits option.splits)+

lemma for_each_Nil: "for_each [] f = skip"
  by (rule ext) (simp add: skip_def)

lemma for_each_Cons: "for_each (x # xs) f = seq (f x) (for_each xs f)"
  by (rule ext) (simp add: seq_def)

lemma get_PDict:
  "get (PDict kvs) k d = Inr (case map_of kvs (PStr k) of Some v \<Rightarrow> v | None \<Rightarrow> d)"
  by (simp add: get_def split: option.splits)

section \<open>The compose scanner\<close>

lemma compose_add_issue_eq:
  "compose_add_issue fp svc r issues = (issues @ [compose_issue_of fp svc r], None)"
  by (simp add: compose_add_issue_def compose_issue_of_def Let_def)

lemma seq_compose_add:
  "seq (compose_add_issue fp svc r) a issues = a (issues @ [compose_issue_of fp svc r])"
  by (simp add: seq_def compose_add_issue_eq)

lemma compose_issue_of_fields:
  "file' (compose_issue_of fp svc r) = fp"
  "service (compose_issue_of fp svc r) = svc"
  "rule (compose_issue_of fp svc r) = r"
  by (simp_all add: compose_issue_of_def compose_add_issue_def Let_def)

lemma compose_issue_of_severity:
  "severity (compose_issue_of fp svc ''privileged_containers'') = ''critical''"
  "severity (compose_issue_of fp svc ''root_filesystem_writable'') = ''medium''"
  "severity (compose_issue_of fp svc ''no_user_specified'') = ''medium''"
  "severity (compose_issue_of fp svc ''insecure_capabilities'') = ''high''"
  "severity (compose_issue_of fp svc ''default_secrets'') = ''high''"
  "severity (compose_issue_of fp svc ''insecure_environment'') = ''medium''"
  by (simp_all add: compose_issue_of_def compose_add_issue_def Let_def lookup_or_def
        compose_security_rules_def)

text \<open>
  C1, as the code has it. A service with \<^verbatim>\<open>privileged: true\<close>, no \<^verbatim>\<open>user\<close> key,
  \<^verbatim>\<open>cap_add: [SYS_ADMIN]\<close>, no \<^verbatim>\<open>volumes\<close>, \<^verbatim>\<open>ports\<close> or \<^verbatim>\<open>environment\<close>
  key and no \<^verbatim>\<open>host\<close> value for \<^verbatim>\<open>network_mode\<close>, \<^verbatim>\<open>pid\<close> or \<^verbatim>\<open>ipc\<close>
  is scanned without an exception, and the issues appended are
  \<^verbatim>\<open>privileged_containers\<close> (critical), \<^verbatim>\<open>no_user_specified\<close> (medium) and
  \<^verbatim>\<open>insecure_capabilities\<close> (high), exactly these three when \<^verbatim>\<open>read_only\<close> is set to
  a true value; when \<^verbatim>\<open>read_only\<close> is missing or false,
  \<^verbatim>\<open>root_filesystem_writable\<close> (medium) is appended as well, after the first.
\<close>

theorem scan_service_privileged_no_user_sys_admin:
  assumes priv: "map_of kvs (PStr ''privileged'') = Some (PBool True)"
      and user: "map_of kvs (PStr ''user'') = None"
      and caps: "map_of kvs (PStr ''cap_add'') = Some (PList [PStr ''SYS_ADMIN''])"
      and other: "\<forall>k \<in> {''volumes'', ''ports'', ''environment''}. map_of kvs (PStr k) = None"
      and host: "\<forall>k \<in> {''network_mode'', ''pid'', ''ipc''}.
                   map_of kvs (PStr k) \<noteq> Some (PStr ''host'')"
  shows "\<exists>new. scan_service fp name (PDict kvs) issues = (issues @ new, None)
           \<and> map (\<lambda>i. (rule i, severity i)) new =
               [(''privileged_containers'', ''critical'')]
               @ (if (case map_of kvs (PStr ''read_only'') of Some v \<Rightarrow> truthy v | None \<Rightarrow> False)
                  then [] else [(''root_filesystem_writable'', ''medium'')])
               @ [(''no_user_specified'', ''medium''), (''insecure_capabilities'', ''high'')]
           \<and> (\<forall>i \<in> set new. file' i = fp \<and> service i = name)"
proof -
  let ?add = "compose_add_issue fp name"
  let ?ro = "case map_of kvs (PStr ''read_only'') of Some v \<Rightarrow> truthy v | None \<Rightarrow> False"
  have nohost: "\<And>k r. k \<in> {''network_mode'', ''pid'', ''ipc''} \<Longrightarrow>
      with_val (get (PDict kvs) k PNone) (\<lambda>v. if_then (v = PStr ''host'') (?add r)) = skip"
    using host by (auto simp: get_PDict with_val_Inr if_then_def split: option.splits)
  have vol: "map_of kvs (PStr ''volumes'') = None"
    and ports: "map_of kvs (PStr ''ports'') = None"
    and env: "map_of kvs (PStr ''environment'') = None"
    using other by simp_all
  have ro: "with_val (get (PDict kvs) ''read_only'' PNone)
              (\<lambda>v. if_then (\<not> truthy v) (?add ''root_filesystem_writable''))
            = (if ?ro then skip else ?add ''root_filesystem_writable'')"
    by (simp add: get_PDict with_val_Inr if_then_def split: option.splits)
  have "scan_service fp name (PDict kvs) =
          block [?add ''privileged_containers'',
                 if ?ro then skip else ?add ''root_filesystem_writable'',
                 ?add ''no_user_specified'', ?add ''insecure_capabilities'']"
    unfolding scan_service_def
    by (simp add: nohost ro seq_skip)
       (simp add: get_PDict priv user caps vol ports env with_val_Inr if_then_simps iterate_def
          items_def for_each_Nil for_each_Cons seq_skip dangerous_caps_def)
  then show ?thesis
    by (cases ?ro)
       (simp_all add: seq_compose_add compose_add_issue_eq seq_skip skip_def
          compose_issue_of_fields compose_issue_of_severity)
qed

theorem scan_service_privileged_no_user_sys_admin_witness:
  "map_of [(PStr ''privileged'', PBool True), (PStr ''read_only'', PBool True),
           (PStr ''cap_add'', PList [PStr ''SYS_ADMIN''])] (PStr ''user'') = None
   \<and> (\<exists>new. scan_service ''docker-compose.yml'' (PStr ''web'')
          (PDict [(PStr ''privileged'', PBool True), (PStr ''read_only'', PBool True),
                  (PStr ''cap_add'', PList [PStr ''SYS_ADMIN''])]) [] = (new, None)
        \<and> map (\<lambda>i. (rule i, severity i)) new =
            [(''privileged_containers'', ''critical''), (''no_user_specified'', ''medium''),
             (''insecure_capabilities'', ''high'')])"
  using scan_service_privileged_no_user_sys_admin
          [of "[(PStr ''privileged'', PBool True), (PStr ''read_only'', PBool True),
                (PStr ''cap_add'', PList [PStr ''SYS_ADMIN''])]"
              "''docker-compose.yml''" "PStr ''web''" "[]"]
  by fastforce

text \<open>
  The service of the example, with only the keys \<^verbatim>\<open>privileged: true\<close> and
  \<^verbatim>\<open>cap_add: [SYS_ADMIN]\<close>, gets four issues and not three: \<^verbatim>\<open>read_only\<close> is
  missing too, and line 126 reports that.
\<close>

theorem scan_service_example_has_four_findings:
  "map (\<lambda>i. (rule i, severity i))
     (fst (scan_service ''docker-compose.yml'' (PStr ''web'')
            (PDict [(PStr ''privileged'', PBool True),
                    (PStr ''cap_add'', PList [PStr ''SYS_ADMIN''])]) []))
   = [(''privileged_containers'', ''critical''), (''root_filesystem_writable'', ''medium''),
      (''no_user_specified'', ''medium''), (''insecure_capabilities'', ''high'')]"
  by code_simp

section \<open>The workflow scanner\<close>

lemma actions_add_issue_eq:
  "actions_add_issue fp j st r issues = (issues @ [workflow_issue_of fp j st r], None)"
  by (simp add: actions_add_issue_def workflow_issue_of_def Let_def)

lemma workflow_issue_of_fields:
  "file' (workflow_issue_of fp j st r) = fp"
  "job (workflow_issue_of fp j st r) = j"
  "step (workflow_issue_of fp j st r) = st"
  "rule (workflow_issue_of fp j st r) = r"
  by (simp_all add: workflow_issue_of_def actions_add_issue_def Let_def)

lemma emits_skip: "emits R skip"
  by (simp add: emits_def skip_def)

lemma emits_raise: "emits R (\<lambda>s. (s, Some e))"
  by (simp add: emits_def)

lemma emits_add: "r \<in> R \<Longrightarrow> emits R (actions_add_issue fp j st r)"
  by (simp add: emits_def actions_add_issue_eq workflow_issue_of_fields)

lemma emits_seq: "emits R a \<Longrightarrow> emits R b \<Longrightarrow> emits R (seq a b)"
proof (unfold emits_def, intro allI)
  fix s
  assume a: "\<forall>s. \<exists>new. fst (a s) = s @ new \<and> rule ` set new \<subseteq> R"
     and b: "\<forall>s. \<exists>new. fst (b s) = s @ new \<and> rule ` set new \<subseteq> R"
  from a obtain n1 where n1: "fst (a s) = s @ n1" "rule ` set n1 \<subseteq> R" by blast
  from b obtain n2 where n2: "fst (b (s @ n1)) = (s @ n1) @ n2" "rule ` set n2 \<subseteq> R" by blast
  show "\<exists>new. fst (seq a b s) = s @ new \<and> rule ` set new \<subseteq> R"
  proof (cases "snd (a s)")
    case None
    then have "fst (seq a b s) = s @ (n1 @ n2)"
      using n1 n2 by (cases "a s") (simp add: seq_def)
    then show ?thesis using n1 n2 by (intro exI[of _ "n1 @ n2"]) auto
  next
    case (Some e)
    then have "fst (seq a b s) = s @ n1"
      using n1 by (cases "a s") (simp add: seq_def)
    then show ?thesis using n1 by blast
  qed
qed

lemma emits_with_val: "(\<And>v. r = Inr v \<Longrightarrow> emits R (k v)) \<Longrightarrow> emits R (with_val r k)"
  by (cases r) (simp_all add: emits_def with_val_def)

lemma emits_if_then: "(c \<Longrightarrow> emits R a) \<Longrightarrow> emits R (if_then c a)"
  by (simp add: if_then_def emits_skip)

lemma emits_for_each: "(\<And>x. x \<in> set xs \<Longrightarrow> emits R (f x)) \<Longrightarrow> emits R (for_each xs f)"
  by (induction xs) (simp_all add: for_each_Nil for_each_Cons emits_skip emits_seq)

lemma emits_check_script_injection:
  "emits {''script_injection''} (check_script_injection fp j st rc)"
  unfolding check_script_injection_def
  by (intro emits_if_then emits_with_val emits_add) simp

lemma emits_check_env_secrets:
  "emits {''secrets_in_environment''} (check_env_secrets fp j st env)"
  unfolding check_env_secrets_def
  apply (intro emits_with_val emits_for_each)
  subgoal for v x
    apply (cases x)
    subgoal for a b
      apply (cases b; cases a)
      apply (simp_all add: emits_skip emits_if_then emits_add emits_raise)
      done
    done
  done

lemma emits_check_artifact_retention:
  "emits {''artifact_upload_no_retention''} (check_artifact_retention fp j st cfg u)"
  unfolding check_artifact_retention_def
  by (intro emits_if_then emits_with_val emits_add) simp

lemma emits_check_cache_key:
  "emits {''cache_key_predictable''} (check_cache_key fp j st cfg u)"
  unfolding check_cache_key_def
  by (intro emits_if_then emits_with_val emits_add) simp

lemma emits_mono:
  assumes "emits R f" and "R \<subseteq> R'"
  shows "emits R' f"
proof (unfold emits_def, intro allI)
  fix s
  have "\<exists>new. fst (f s) = s @ new \<and> rule ` set new \<subseteq> R"
    using assms(1) by (simp add: emits_def)
  then obtain new where new: "fst (f s) = s @ new" "rule ` set new \<subseteq> R"
    by (elim exE conjE)
  have "rule ` set new \<subseteq> R'"
    using new(2) assms(2) by (rule subset_trans)
  with new(1) show "\<exists>new. fst (f s) = s @ new \<and> rule ` set new \<subseteq> R'"
    by (intro exI[of _ new] conjI)
qed

lemma emits_step_rest:
  "emits other_step_rules
     (block [with_val (get cfg ''run'' (PStr [])) (check_script_injection fp j st),
             with_val (get cfg ''env'' (PDict [])) (check_env_secrets fp j st),
             check_artifact_retention fp j st cfg u,
             check_cache_key fp j st cfg u])"
  apply simp
  apply (intro emits_seq emits_with_val emits_skip)
      apply (rule emits_mono[OF emits_check_script_injection], simp add: other_step_rules_def)
     apply (rule emits_mono[OF emits_check_env_secrets], simp add: other_step_rules_def)
    apply (rule emits_mono[OF emits_check_artifact_retention], simp add: other_step_rules_def)
   apply (rule emits_mono[OF emits_check_cache_key], simp add: other_step_rules_def)
  done

lemma lower_char_hex:
  "lower_char c \<in> set ''0123456789abcdef'' \<longleftrightarrow> c \<in> set ''0123456789abcdefABCDEF''"
proof (cases "map_of (zip upper_case_letters lower_case_of_them) c")
  case None
  then have "c \<notin> fst ` set (zip upper_case_letters lower_case_of_them)"
    unfolding map_of_eq_None_iff .
  then have "c \<notin> set ''ABCDEF''"
    by (simp add: upper_case_letters_def lower_case_of_them_def)
  moreover have "lower_char c = c"
    using None by (simp only: lower_char_def option.case)
  ultimately show ?thesis by simp
next
  case (Some a)
  then have "(c, a) \<in> set (zip upper_case_letters lower_case_of_them)"
    by (rule map_of_SomeD)
  then have d: "(c, a) \<in> {(CHR ''A'', CHR ''a''), (CHR ''B'', CHR ''b''), (CHR ''C'', CHR ''c''),
       (CHR ''D'', CHR ''d''), (CHR ''E'', CHR ''e''), (CHR ''F'', CHR ''f'')}
     \<or> c \<notin> set ''0123456789abcdefABCDEF'' \<and> a \<notin> set ''0123456789abcdef''"
    by (simp add: upper_case_letters_def lower_case_of_them_def, elim disjE conjE; simp)
  have "lower_char c = a"
    using Some by (simp only: lower_char_def option.case)
  with d show ?thesis by (elim disjE; simp; elim disjE conjE; simp)
qed

lemma lower_hex:
  "list_all (\<lambda>c. c \<in> set ''0123456789abcdef'') (lower s)
   \<longleftrightarrow> set s \<subseteq> set ''0123456789abcdefABCDEF''"
  unfolding lower_def list_all_iff
  by (simp only: set_map ball_simps lower_char_hex subset_eq)

lemma str_contains_single: "str_contains s [c] \<longleftrightarrow> c \<in> set s"
  by (induction s) auto

lemma split_not_Nil: "split sep s \<noteq> []"
  by (induction s) (auto split: list.splits)

lemma length_split: "length (split sep s) = Suc (length (filter (\<lambda>c. c = sep) s))"
  by (induction s) (auto simp: split_not_Nil split: list.splits)

lemma split_second: "sep \<in> set s \<Longrightarrow> list_index (split sep s) (Suc 0) = Inr (split sep s ! Suc 0)"
proof -
  assume "sep \<in> set s"
  then have "filter (\<lambda>c. c = sep) s \<noteq> []"
    by (simp add: filter_empty_conv)
  then have "Suc 0 < length (split sep s)"
    by (cases "filter (\<lambda>c. c = sep) s") (simp_all add: length_split)
  then show ?thesis by (simp add: list_index_def)
qed

lemma not_pinned_nonempty:
  assumes "v \<noteq> []"
  shows "not_pinned v =
     Inr (\<not> (length v = 40 \<and> set v \<subseteq> set ''0123456789abcdefABCDEF'')
          \<and> \<not> startswith v ''v'' \<and> \<not> isdigit (hd v))"
proof -
  obtain c cs where v: "v = c # cs" using assms by (cases v) auto
  have idx: "str_index v 0 = Inr (hd v)" by (simp add: v str_index_def)
  show ?thesis unfolding not_pinned_def lower_hex idx by simp
qed

lemma not_pinned_empty: "not_pinned [] = Inl (IndexError ''string index out of range'')"
  by (simp add: not_pinned_def str_index_def lower_def)

lemma check_action_pin_at:
  assumes "\<not> startswith u ''./''" "\<not> startswith u ''docker://''" "str_contains u ''@''"
  shows "check_action_pin fp j st (PStr u) =
           with_val (not_pinned (split CHR ''@'' u ! Suc 0)) (\<lambda>unpinned.
             if_then unpinned (actions_add_issue fp j st ''third_party_action_no_pin''))"
proof -
  have at: "CHR ''@'' \<in> set u" using assms(3) by (simp add: str_contains_single)
  then have "u \<noteq> []" by auto
  then show ?thesis
    using assms at
    by (simp add: check_action_pin_def startswith_method_def contains_def with_val_Inr
          if_then_simps split_second)
qed

lemma scan_step_uses:
  assumes "map_of kvs (PStr ''uses'') = Some u"
  shows "scan_step fp j i (PDict kvs) =
           seq (check_action_pin fp j (step_name_of kvs i) u)
             (block [with_val (get (PDict kvs) ''run'' (PStr []))
                       (check_script_injection fp j (step_name_of kvs i)),
                     with_val (get (PDict kvs) ''env'' (PDict []))
                       (check_env_secrets fp j (step_name_of kvs i)),
                     check_artifact_retention fp j (step_name_of kvs i) (PDict kvs) u,
                     check_cache_key fp j (step_name_of kvs i) (PDict kvs) u])"
  unfolding scan_step_def step_name_of_def
  by (simp only: get_PDict[of kvs "''name''"] get_PDict[of kvs "''uses''"] with_val_Inr assms
        option.case block.simps)

lemma seq_actions_add:
  "seq (actions_add_issue fp j st r) a issues = a (issues @ [workflow_issue_of fp j st r])"
  by (simp add: seq_def actions_add_issue_eq)

lemma third_not_other: "''third_party_action_no_pin'' \<notin> other_step_rules"
  by (simp add: other_step_rules_def)

text \<open>
  C4, as the code has it. For a step whose \<^verbatim>\<open>uses\<close> is a string that does not
  start with \<^verbatim>\<open>./\<close> or \<^verbatim>\<open>docker://\<close> and contains \<^verbatim>\<open>@\<close>, let the
  version part be the text between the first \<^verbatim>\<open>@\<close> and the next one (or the end).
  When the version part is not empty, the step gets the issue
  \<^verbatim>\<open>third_party_action_no_pin\<close> exactly when the version part is not a string of 40
  hexadecimal digits, in lower or upper case, and starts neither with \<^verbatim>\<open>v\<close> nor with
  a character that \<^verbatim>\<open>isdigit\<close> accepts. The other checks of the step never add that rule, whatever they find or raise.
\<close>

theorem scan_step_third_party_action_no_pin:
  assumes uses: "map_of kvs (PStr ''uses'') = Some (PStr u)"
      and local: "\<not> startswith u ''./''"
      and docker: "\<not> startswith u ''docker://''"
      and at: "str_contains u ''@''"
      and nonempty: "split CHR ''@'' u ! 1 \<noteq> []"
  shows "''third_party_action_no_pin''
           \<in> rule ` set (drop (length issues) (fst (scan_step fp j i (PDict kvs) issues)))
         \<longleftrightarrow> \<not> (length (split CHR ''@'' u ! 1) = 40
                \<and> set (split CHR ''@'' u ! 1) \<subseteq> set ''0123456789abcdefABCDEF'')
             \<and> \<not> startswith (split CHR ''@'' u ! 1) ''v''
             \<and> \<not> isdigit (hd (split CHR ''@'' u ! 1))"
    (is "?flagged \<longleftrightarrow> ?unpinned")
proof -
  let ?st = "step_name_of kvs i"
  define rest where "rest =
     block [with_val (get (PDict kvs) ''run'' (PStr []))
              (check_script_injection fp j ?st),
            with_val (get (PDict kvs) ''env'' (PDict []))
              (check_env_secrets fp j ?st),
            check_artifact_retention fp j ?st (PDict kvs) (PStr u),
            check_cache_key fp j ?st (PDict kvs) (PStr u)]"
  define unp where "unp \<longleftrightarrow> ?unpinned"
  have ne: "split CHR ''@'' u ! Suc 0 \<noteq> []" using nonempty by simp
  have pin: "check_action_pin fp j ?st (PStr u) =
               if_then unp (actions_add_issue fp j ?st ''third_party_action_no_pin'')"
    unfolding check_action_pin_at[OF local docker at] not_pinned_nonempty[OF ne] with_val_Inr
      unp_def
    by (simp only: One_nat_def)
  have step: "scan_step fp j i (PDict kvs) =
                seq (if_then unp (actions_add_issue fp j ?st ''third_party_action_no_pin''))
                    rest"
    unfolding scan_step_uses[OF uses] pin rest_def ..
  have "emits other_step_rules rest" unfolding rest_def by (rule emits_step_rest)
  then have rest: "\<And>s. \<exists>new. fst (rest s) = s @ new \<and> rule ` set new \<subseteq> other_step_rules"
    by (simp add: emits_def)
  have "?flagged \<longleftrightarrow> unp"
  proof (cases unp)
    case True
    let ?i = "workflow_issue_of fp j ?st ''third_party_action_no_pin''"
    from rest obtain new where "fst (rest (issues @ [?i])) = (issues @ [?i]) @ new"
      by blast
    then have "fst (scan_step fp j i (PDict kvs) issues) = issues @ ?i # new"
      unfolding step using True
      by (simp add: if_then_simps seq_actions_add)
    then have ?flagged by (simp add: workflow_issue_of_fields)
    with True show ?thesis by simp
  next
    case False
    from rest obtain new where new: "fst (rest issues) = issues @ new"
        "rule ` set new \<subseteq> other_step_rules"
      by blast
    then have "fst (scan_step fp j i (PDict kvs) issues) = issues @ new"
      unfolding step using False
      by (simp add: if_then_simps seq_skip)
    then have "\<not> ?flagged" using new(2) third_not_other by auto
    with False show ?thesis by simp
  qed
  then show ?thesis unfolding unp_def .
qed

lemma split_checkout_main:
  "split CHR ''@'' ''actions/checkout@main'' = [''actions/checkout'', ''main'']"
  by code_simp

lemma split_checkout_v4:
  "split CHR ''@'' ''actions/checkout@v4'' = [''actions/checkout'', ''v4'']"
  by code_simp

text \<open>
  The two examples: \<^verbatim>\<open>actions/checkout@main\<close> is reported,
  \<^verbatim>\<open>actions/checkout@v4\<close> is not.
\<close>

theorem scan_step_third_party_action_no_pin_witness:
  "str_contains ''actions/checkout@main'' ''@''
   \<and> split CHR ''@'' ''actions/checkout@main'' ! 1 = ''main''
   \<and> ''third_party_action_no_pin''
        \<in> rule ` set (fst (scan_step ''ci.yml'' (PStr ''build'') 0
                             (PDict [(PStr ''uses'', PStr ''actions/checkout@main'')]) []))
   \<and> split CHR ''@'' ''actions/checkout@v4'' ! 1 = ''v4''
   \<and> ''third_party_action_no_pin''
        \<notin> rule ` set (fst (scan_step ''ci.yml'' (PStr ''build'') 0
                             (PDict [(PStr ''uses'', PStr ''actions/checkout@v4'')]) []))"
proof -
  have m: "''third_party_action_no_pin''
        \<in> rule ` set (fst (scan_step ''ci.yml'' (PStr ''build'') 0
                             (PDict [(PStr ''uses'', PStr ''actions/checkout@main'')]) []))"
    using scan_step_third_party_action_no_pin [of "[(PStr ''uses'', PStr ''actions/checkout@main'')]" "''actions/checkout@main''"
                 "[]" "''ci.yml''" "PStr ''build''" 0]
    by (simp add: split_checkout_main isdigit_def)
  have v: "''third_party_action_no_pin''
        \<notin> rule ` set (fst (scan_step ''ci.yml'' (PStr ''build'') 0
                             (PDict [(PStr ''uses'', PStr ''actions/checkout@v4'')]) []))"
    using scan_step_third_party_action_no_pin [of "[(PStr ''uses'', PStr ''actions/checkout@v4'')]" "''actions/checkout@v4''"
                 "[]" "''ci.yml''" "PStr ''build''" 0]
    by (simp add: split_checkout_v4 isdigit_def)
  show ?thesis using m v by (simp add: split_checkout_main split_checkout_v4)
qed

text \<open>
  A version part that starts with the superscript digit U+00B2 counts as pinned, since
  \<^verbatim>\<open>isdigit\<close> holds for it.
\<close>

lemma scan_step_superscript_digit_not_flagged:
  "scan_step ''ci.yml'' (PStr ''build'') 0
     (PDict [(PStr ''uses'', PStr (''actions/checkout@'' @ [CHR 0xB2]))]) [] = ([], None)"
  by code_simp

text \<open>
  A version part of 40 upper-case hexadecimal digits is not a lower-case hexadecimal
  string and starts neither with \<^verbatim>\<open>v\<close> nor with a digit, and the step is not
  reported: line 131 lower-cases the version part before it looks at the digits.
\<close>

theorem scan_step_uppercase_sha_not_flagged:
  "\<not> (length ''ABCDEFABCDABCDEFABCDABCDEFABCDABCDEFABCD'' = 40
       \<and> set ''ABCDEFABCDABCDEFABCDABCDEFABCDABCDEFABCD'' \<subseteq> set ''0123456789abcdef'')
   \<and> \<not> startswith ''ABCDEFABCDABCDEFABCDABCDEFABCDABCDEFABCD'' ''v''
   \<and> \<not> isdigit (hd ''ABCDEFABCDABCDEFABCDABCDEFABCDABCDEFABCD'')
   \<and> scan_step ''ci.yml'' (PStr ''build'') 0
        (PDict [(PStr ''uses'',
                 PStr ''actions/checkout@ABCDEFABCDABCDEFABCDABCDEFABCDABCDEFABCD'')]) []
      = ([], None)"
  by code_simp

lemma appendsI: "(\<And>s. f s = (s @ new, r)) \<Longrightarrow> appends f"
  by (simp add: appends_def)

lemma appendsD: "appends f \<Longrightarrow> f [] = (new, r) \<Longrightarrow> f s = (s @ new, r)"
  by (simp add: appends_def)

lemma appends_skip: "appends skip"
  by (simp add: appends_def skip_def)

lemma appends_raise: "appends (\<lambda>s. (s, Some e))"
  by (simp add: appends_def)

lemma appends_actions_add: "appends (actions_add_issue fp j st r)"
  by (simp add: appends_def actions_add_issue_eq)

lemma appends_seq:
  assumes a: "appends a" and b: "appends b"
  shows "appends (seq a b)"
proof -
  obtain A ea where A: "a [] = (A, ea)" by (cases "a []")
  obtain B eb where B: "b [] = (B, eb)" by (cases "b []")
  have as: "\<And>s. a s = (s @ A, ea)" using appendsD[OF a A] .
  have bs: "\<And>s. b s = (s @ B, eb)" using appendsD[OF b B] .
  show ?thesis
  proof (cases ea)
    case None
    have "\<And>s. seq a b s = (s @ (A @ B), eb)"
      by (simp add: seq_def as bs None)
    then show ?thesis by (rule appendsI)
  next
    case (Some e)
    have "\<And>s. seq a b s = (s @ A, Some e)"
      by (simp add: seq_def as Some)
    then show ?thesis by (rule appendsI)
  qed
qed

lemma with_val_Inl_fun: "with_val (Inl e) k = (\<lambda>s. (s, Some e))"
  by (rule ext) (simp add: with_val_def)

lemma appends_with_val:
  assumes "\<And>v. r = Inr v \<Longrightarrow> appends (k v)"
  shows "appends (with_val r k)"
proof (cases r)
  case (Inl e)
  show ?thesis unfolding Inl with_val_Inl_fun by (rule appends_raise)
next
  case (Inr v)
  show ?thesis unfolding Inr with_val_Inr by (rule assms[OF Inr])
qed

lemma appends_if_then: "(c \<Longrightarrow> appends a) \<Longrightarrow> appends (if_then c a)"
  by (simp add: if_then_def appends_skip)

lemma appends_for_each: "(\<And>x. x \<in> set xs \<Longrightarrow> appends (f x)) \<Longrightarrow> appends (for_each xs f)"
  by (induction xs) (simp_all add: for_each_Nil for_each_Cons appends_skip appends_seq)

lemma appends_check_action_pin: "appends (check_action_pin fp j st u)"
proof (cases u)
  case (PStr s)
  show ?thesis
    unfolding check_action_pin_def PStr
    by (intro appends_if_then appends_with_val)
       (simp add: appends_with_val appends_if_then appends_actions_add)
qed (simp_all add: check_action_pin_def startswith_method_def with_val_Inl_fun appends_if_then
       appends_raise)

lemma appends_check_script_injection: "appends (check_script_injection fp j st rc)"
  unfolding check_script_injection_def
  by (intro appends_if_then appends_with_val appends_actions_add)

lemma appends_check_env_secrets: "appends (check_env_secrets fp j st env)"
  unfolding check_env_secrets_def
  apply (intro appends_with_val appends_for_each)
  subgoal for v x
    apply (cases x)
    subgoal for a b
      apply (cases b; cases a)
      apply (simp_all add: appends_skip appends_if_then appends_actions_add appends_raise)
      done
    done
  done

lemma appends_check_artifact_retention: "appends (check_artifact_retention fp j st cfg u)"
  unfolding check_artifact_retention_def
  by (intro appends_if_then appends_with_val appends_actions_add)

lemma appends_check_cache_key: "appends (check_cache_key fp j st cfg u)"
  unfolding check_cache_key_def
  by (intro appends_if_then appends_with_val appends_actions_add)

lemma appends_scan_step: "appends (scan_step fp j i cfg)"
  unfolding scan_step_def block.simps
  by (intro appends_with_val appends_seq appends_skip appends_check_action_pin
        appends_check_script_injection appends_check_env_secrets
        appends_check_artifact_retention appends_check_cache_key)

lemma for_each_append: "for_each (xs @ ys) f = seq (for_each xs f) (for_each ys f)"
proof (induction xs)
  case Nil
  show ?case by (simp add: for_each_Nil seq_skip)
next
  case (Cons x xs)
  have assoc: "\<And>a b c. seq (seq a b) c = seq a (seq b c)"
    by (rule ext) (simp add: seq_def split: prod.splits option.splits)
  show ?case by (simp add: for_each_Cons Cons.IH assoc)
qed

lemma zip_upt_append:
  "zip [0 ..< length (xs @ y # ys)] (xs @ y # ys) =
     zip [0 ..< length xs] xs @ (length xs, y) # zip [Suc (length xs) ..< length (xs @ y # ys)] ys"
proof -
  let ?n = "length xs + Suc (length ys)"
  have len: "length (xs @ y # ys) = ?n" by simp
  have "[0 ..< ?n] = [0 ..< length xs] @ [length xs ..< ?n]"
    using upt_add_eq_append[of 0 "length xs" "Suc (length ys)"] by simp
  moreover have "[length xs ..< ?n] = length xs # [Suc (length xs) ..< ?n]"
    by (rule upt_conv_Cons) simp
  ultimately have "[0 ..< ?n] = [0 ..< length xs] @ length xs # [Suc (length xs) ..< ?n]"
    by simp
  then show ?thesis unfolding len by simp
qed

lemma split_no_sep: "sep \<notin> set p \<Longrightarrow> split sep (p @ [sep]) = [p, []]"
  by (induction p) auto

lemma scan_step_empty_version:
  assumes "CHR ''@'' \<notin> set p"
      and "\<not> startswith (p @ ''@'') ''./''" and "\<not> startswith (p @ ''@'') ''docker://''"
      and "map_of kvs (PStr ''uses'') = Some (PStr (p @ ''@''))"
  shows "scan_step fp j i (PDict kvs) s = (s, Some (IndexError ''string index out of range''))"
proof -
  have c: "str_contains (p @ ''@'') ''@''" by (simp add: str_contains_single)
  have "check_action_pin fp j (step_name_of kvs i) (PStr (p @ ''@'')) =
          (\<lambda>s. (s, Some (IndexError ''string index out of range'')))"
    unfolding check_action_pin_at[OF assms(2,3) c] split_no_sep[OF assms(1)]
    by (simp add: not_pinned_empty with_val_Inl_fun)
  then show ?thesis
    unfolding scan_step_uses[OF assms(4)] by (simp add: seq_def)
qed

text \<open>
  C8. When \<^verbatim>\<open>open\<close> or \<^verbatim>\<open>yaml.safe_load\<close> raise for a file, each scanner
  appends exactly one issue for it, with rule \<^verbatim>\<open>parse_error\<close>, severity high, the
  path of the file and \<^verbatim>\<open>N/A\<close> for the service (the job and the step), and returns;
  \<^verbatim>\<open>scan_workflows_directory\<close> goes on with the files that follow.
\<close>

theorem parse_failure_single_finding:
  assumes "load fp = Inl e"
  shows "scan_compose_file load fp cissues = cissues @ [compose_parse_error fp e]
       \<and> scan_workflow_file load fp wissues = wissues @ [workflow_parse_error fp e]
       \<and> scan_workflows_directory load (fp # files) wissues =
           scan_workflows_directory load files (wissues @ [workflow_parse_error fp e])
       \<and> rule (compose_parse_error fp e) = ''parse_error''
       \<and> severity (compose_parse_error fp e) = ''high''
       \<and> file' (compose_parse_error fp e) = fp
       \<and> service (compose_parse_error fp e) = PStr ''N/A''
       \<and> rule (workflow_parse_error fp e) = ''parse_error''
       \<and> severity (workflow_parse_error fp e) = ''high''
       \<and> file' (workflow_parse_error fp e) = fp
       \<and> job (workflow_parse_error fp e) = PStr ''N/A''
       \<and> step (workflow_parse_error fp e) = PStr ''N/A''"
  using assms
  by (simp add: scan_compose_file_def scan_workflow_file_def try_except_def with_val_def
        compose_parse_error_def workflow_parse_error_def)

text \<open>
  C10. A step whose \<^verbatim>\<open>uses\<close> is external and ends with its only \<^verbatim>\<open>@\<close> has an
  empty version part; line 132 reads \<^verbatim>\<open>version_part[0]\<close> and raises
  \<^verbatim>\<open>IndexError\<close>. In a workflow with one job, the issues \<open>found\<close> in the steps
  before that step stay in the list, the handler of \<^verbatim>\<open>scan_workflow_file\<close> appends
  one \<^verbatim>\<open>parse_error\<close> issue of severity high after them, and the steps after it
  are not scanned.
\<close>

theorem empty_version_suffix_parse_error:
  assumes doc: "load fp = Inr (PDict [(PStr ''jobs'', PDict [(jn,
                  PDict [(PStr ''steps'',
                          PList (pre @ PDict [(PStr ''uses'', PStr (p @ ''@''))] # post))])])])"
      and p: "CHR ''@'' \<notin> set p"
      and local: "\<not> startswith (p @ ''@'') ''./''"
      and docker: "\<not> startswith (p @ ''@'') ''docker://''"
      and pre: "for_each (zip [0 ..< length pre] pre) (\<lambda>(i, s). scan_step fp jn i s) []
                  = (found, None)"
  shows "scan_step fp jn (length pre) (PDict [(PStr ''uses'', PStr (p @ ''@''))]) (issues @ found)
           = (issues @ found, Some (IndexError ''string index out of range''))
       \<and> scan_workflow_file load fp issues =
           issues @ found @ [workflow_parse_error fp (IndexError ''string index out of range'')]
       \<and> rule (workflow_parse_error fp (IndexError ''string index out of range'')) = ''parse_error''
       \<and> severity (workflow_parse_error fp (IndexError ''string index out of range'')) = ''high''"
proof -
  let ?bad = "PDict [(PStr ''uses'', PStr (p @ ''@''))]"
  let ?e = "IndexError ''string index out of range''"
  let ?f = "\<lambda>(i, s). scan_step fp jn i s"
  have bad: "\<And>i s. scan_step fp jn i ?bad s = (s, Some ?e)"
    by (rule scan_step_empty_version[OF p local docker]) simp
  have "appends (for_each (zip [0 ..< length pre] pre) ?f)"
    by (rule appends_for_each) (auto simp: appends_scan_step)
  from appendsD[OF this pre]
  have pre': "\<And>s. for_each (zip [0 ..< length pre] pre) ?f s = (s @ found, None)" .
  have steps: "for_each (zip [0 ..< length (pre @ ?bad # post)] (pre @ ?bad # post)) ?f issues
                 = (issues @ found, Some ?e)"
    unfolding zip_upt_append for_each_append for_each_Cons
    by (simp add: seq_def pre' bad)
  have job: "scan_job fp jn (PDict [(PStr ''steps'', PList (pre @ ?bad # post))]) issues
               = (issues @ found, Some ?e)"
    unfolding scan_job_def
    by (simp add: get_PDict with_val_Inr if_then_simps seq_skip iterate_def steps
          del: upt.simps length_append)
  have "scan_workflow_file load fp issues = issues @ found @ [workflow_parse_error fp ?e]"
    unfolding scan_workflow_file_def try_except_def doc
    by (simp add: with_val_Inr get_PDict check_triggers_def contains_def if_then_simps seq_skip
          items_def for_each_Nil for_each_Cons job del: upt.simps length_append)
  then show ?thesis by (simp add: bad workflow_parse_error_def)
qed

lemma example_ok_scan:
  "scan_workflow_file example_load ''ok.yml'' issues =
     issues @ [workflow_issue_of ''ok.yml'' (PStr ''trigger'') (PStr ''pull_request_target'')
                 ''pull_request_target_checkout'']"
  by (simp add: scan_workflow_file_def try_except_def example_load_def with_val_Inr get_PDict
        check_triggers_def contains_def if_then_simps items_def for_each_Nil seq_skip
        seq_actions_add skip_def)

theorem parse_failure_single_finding_witness:
  "example_load ''bad.yml'' = Inl (LoadError ''mapping values are not allowed here'')
   \<and> scan_compose_file example_load ''bad.yml'' [] =
       [compose_parse_error ''bad.yml'' (LoadError ''mapping values are not allowed here'')]
   \<and> scan_workflows_directory example_load [''bad.yml'', ''ok.yml''] [] =
       [workflow_parse_error ''bad.yml'' (LoadError ''mapping values are not allowed here''),
        workflow_issue_of ''ok.yml'' (PStr ''trigger'') (PStr ''pull_request_target'')
          ''pull_request_target_checkout'']"
proof -
  have h: "example_load ''bad.yml'' = Inl (LoadError ''mapping values are not allowed here'')"
    by (simp add: example_load_def)
  show ?thesis
    using h parse_failure_single_finding [of example_load "''bad.yml''" "LoadError ''mapping values are not allowed here''"
                   "[]" "[]" "[''ok.yml'']"]
    by (simp add: example_ok_scan)
qed

lemma example_pre_scan:
  "for_each (zip [0 ..< length [PDict [(PStr ''uses'', PStr ''actions/checkout@main'')]]]
               [PDict [(PStr ''uses'', PStr ''actions/checkout@main'')]])
     (\<lambda>(i, s). scan_step ''ci.yml'' (PStr ''build'') i s) []
   = ([workflow_issue_of ''ci.yml'' (PStr ''build'') (PStr ''step-0'')
         ''third_party_action_no_pin''], None)"
  by code_simp

theorem empty_version_suffix_parse_error_witness:
  "scan_workflow_file example_load ''ci.yml'' [] =
     [workflow_issue_of ''ci.yml'' (PStr ''build'') (PStr ''step-0'') ''third_party_action_no_pin'',
      workflow_parse_error ''ci.yml'' (IndexError ''string index out of range'')]"
proof -
  have doc: "example_load ''ci.yml'' =
      Inr (PDict [(PStr ''jobs'', PDict [(PStr ''build'',
               PDict [(PStr ''steps'',
                       PList ([PDict [(PStr ''uses'', PStr ''actions/checkout@main'')]]
                              @ PDict [(PStr ''uses'', PStr (''actions/setup-node'' @ ''@''))]
                              # [PDict [(PStr ''run'', PStr ''make'')]]))])])])"
    by (simp add: example_load_def)
  have p: "CHR ''@'' \<notin> set ''actions/setup-node''" by simp
  have l: "\<not> startswith (''actions/setup-node'' @ ''@'') ''./''" by simp
  have d: "\<not> startswith (''actions/setup-node'' @ ''@'') ''docker://''" by simp
  show ?thesis
    using empty_version_suffix_parse_error [where load = example_load and fp = "''ci.yml''" and jn = "PStr ''build''"
                 and pre = "[PDict [(PStr ''uses'', PStr ''actions/checkout@main'')]]"
                 and p = "''actions/setup-node''"
                 and post = "[PDict [(PStr ''run'', PStr ''make'')]]"
                 and issues = "[]", OF doc p l d example_pre_scan]
    by simp
qed

section \<open>The environment of a compose service\<close>

















section \<open>The quality gate\<close>

lemma keepsD: "keeps R f \<Longrightarrow> R s (fst (f s))"
  by (simp add: keeps_def)

lemma keeps_skip: "reflp R \<Longrightarrow> keeps R skip"
  by (simp add: keeps_def skip_def reflpD)

lemma keeps_raise: "reflp R \<Longrightarrow> keeps R (\<lambda>s. (s, Some e))"
  by (simp add: keeps_def reflpD)

lemma keeps_seq:
  assumes t: "transp R" and a: "keeps R a" and b: "keeps R b"
  shows "keeps R (seq a b)"
proof (unfold keeps_def, intro allI)
  fix s
  obtain s1 x where as: "a s = (s1, x)" by (cases "a s")
  have 1: "R s s1" using keepsD[OF a, of s] as by simp
  show "R s (fst (seq a b s))"
  proof (cases x)
    case None
    have "R s1 (fst (b s1))" by (rule keepsD[OF b])
    with 1 have "R s (fst (b s1))" by (rule transpD[OF t])
    then show ?thesis by (simp add: seq_def as None)
  next
    case (Some e)
    then show ?thesis using 1 by (simp add: seq_def as)
  qed
qed

lemma keeps_with_val:
  assumes "reflp R" and "\<And>v. r = Inr v \<Longrightarrow> keeps R (k v)"
  shows "keeps R (with_val r k)"
proof (cases r)
  case (Inl e)
  show ?thesis unfolding Inl with_val_Inl_fun by (rule keeps_raise[OF assms(1)])
next
  case (Inr v)
  show ?thesis unfolding Inr with_val_Inr by (rule assms(2)[OF Inr])
qed

lemma keeps_if_then: "reflp R \<Longrightarrow> (c \<Longrightarrow> keeps R a) \<Longrightarrow> keeps R (if_then c a)"
  by (simp add: if_then_def keeps_skip)

lemma keeps_if:
  "(c \<Longrightarrow> keeps R a) \<Longrightarrow> (\<not> c \<Longrightarrow> keeps R b) \<Longrightarrow> keeps R (if c then a else b)"
  by simp

lemma keeps_block:
  "reflp R \<Longrightarrow> transp R \<Longrightarrow> (\<And>f. f \<in> set fs \<Longrightarrow> keeps R f) \<Longrightarrow> keeps R (block fs)"
  by (induction fs) (simp_all add: keeps_skip keeps_seq)

lemma keeps_try:
  assumes "keeps R body"
  shows "keeps R (\<lambda>r. (try_except body (\<lambda>e r. r) r, None))"
proof (unfold keeps_def, intro allI)
  fix s
  have "try_except body (\<lambda>e r. r) s = fst (body s)"
    by (cases "body s") (simp add: try_except_def split: option.splits)
  then show "R s (fst (try_except body (\<lambda>e r. r) s, None))"
    using keepsD[OF assms, of s] by simp
qed

lemma keeps_pure: "(\<And>r. R r (g r)) \<Longrightarrow> keeps R (\<lambda>r. (g r, None))"
  by (simp add: keeps_def)

lemma keeps_check_category:
  assumes r: "reflp R" and t: "transp R"
      and c: "\<And>name check. (name, check) \<in> set checks \<Longrightarrow> keeps R check"
  shows "keeps R (check_category cat category checks)"
  unfolding check_category_def Let_def
  by (intro keeps_if keeps_skip[OF r] keeps_with_val[OF r] keeps_block[OF r t])
     (auto intro: keeps_if_then[OF r] c)

lemma keeps_check_eslint_security:
  assumes r: "reflp R" and t: "transp R"
      and f: "\<And>g x. keeps R (fail_gate g x)" and p: "\<And>g x. keeps R (pass_gate g x)"
      and h: "\<And>s n. R s (s\<lparr>high_issues := high_issues s + n\<rparr>)"
  shows "keeps R (check_eslint_security config inputs)"
proof (cases "eslint_results inputs")
  case None
  then show ?thesis by (simp add: check_eslint_security_def keeps_skip[OF r])
next
  case (Some loaded)
  show ?thesis
    unfolding check_eslint_security_def Some option.case Let_def
    by (intro keeps_try keeps_with_val[OF r] keeps_seq[OF t] keeps_if f p keeps_pure h)
qed

lemma keeps_check_npm_audit:
  assumes r: "reflp R" and t: "transp R"
      and f: "\<And>g x. keeps R (fail_gate g x)" and p: "\<And>g x. keeps R (pass_gate g x)"
      and h: "\<And>s n. R s (s\<lparr>high_issues := high_issues s + n\<rparr>)"
      and c: "\<And>s n. R s (s\<lparr>critical_issues := critical_issues s + n\<rparr>)"
  shows "keeps R (check_npm_audit config inputs)"
  unfolding check_npm_audit_def Let_def block.simps
  by (intro keeps_if keeps_skip[OF r])
     (auto split: prod.splits
        intro!: keeps_with_val[OF r] keeps_seq[OF t] keeps_if f p keeps_pure h c keeps_skip[OF r])

lemma keeps_categories:
  assumes r: "reflp R" and t: "transp R"
      and p: "\<And>g x. keeps R (pass_gate g x)"
      and e: "keeps R (check_eslint_security config inputs)"
      and n: "keeps R (check_npm_audit config inputs)"
  shows "keeps R (block [check_sast_gates config inputs, check_dependency_gates config inputs,
                         check_container_gates config, check_iac_gates config,
                         check_secrets_gates config])"
proof (rule keeps_block[OF r t])
  fix f
  assume "f \<in> set [check_sast_gates config inputs, check_dependency_gates config inputs,
                    check_container_gates config, check_iac_gates config,
                    check_secrets_gates config]"
  then consider "f = check_sast_gates config inputs" | "f = check_dependency_gates config inputs"
    | "f = check_container_gates config" | "f = check_iac_gates config"
    | "f = check_secrets_gates config"
    by auto
  then show "keeps R f"
  proof cases
    case 1
    show ?thesis unfolding 1 check_sast_gates_def
      by (rule keeps_check_category[OF r t])
         (auto simp: e p check_semgrep_def check_codeql_def check_sonarcloud_def)
  next
    case 2
    show ?thesis unfolding 2 check_dependency_gates_def
      by (rule keeps_check_category[OF r t])
         (auto simp: n p check_snyk_def check_osv_scanner_def)
  next
    case 3
    show ?thesis unfolding 3 check_container_gates_def
      by (rule keeps_check_category[OF r t]) (auto simp: p check_trivy_def check_grype_def)
  next
    case 4
    show ?thesis unfolding 4 check_iac_gates_def
      by (rule keeps_check_category[OF r t])
         (auto simp: p check_checkov_def check_kics_def check_hadolint_def)
  next
    case 5
    show ?thesis unfolding 5 check_secrets_gates_def
      by (rule keeps_check_category[OF r t]) (auto simp: p check_trufflehog_def)
  qed
qed

lemma keeps_calculate_security_debt:
  assumes t: "transp R"
      and f: "\<And>g x. keeps R (fail_gate g x)" and p: "\<And>g x. keeps R (pass_gate g x)"
      and d: "\<And>s n. R s (s\<lparr>security_debt := n\<rparr>)"
  shows "keeps R (calculate_security_debt config)"
proof (unfold keeps_def, intro allI)
  fix s :: results
  let ?scoring = "case cfg_security_debt config of None \<Rightarrow> default_scoring
                  | Some d \<Rightarrow> get_or (scoring d) default_scoring"
  let ?debt = "critical_issues s * lookup_or ?scoring ''critical'' 50
               + high_issues s * lookup_or ?scoring ''high'' 20
               + medium_issues s * lookup_or ?scoring ''medium'' 5
               + low_issues s * lookup_or ?scoring ''low'' 1"
  let ?s1 = "s\<lparr>security_debt := ?debt\<rparr>"
  have 1: "R s ?s1" by (rule d)
  have "\<exists>g x. calculate_security_debt config s = fail_gate g x ?s1
             \<or> calculate_security_debt config s = pass_gate g x ?s1"
    unfolding calculate_security_debt_def Let_def by (simp, blast)
  then obtain g x where "calculate_security_debt config s = fail_gate g x ?s1
             \<or> calculate_security_debt config s = pass_gate g x ?s1" by (elim exE)
  then have "R ?s1 (fst (calculate_security_debt config s))"
    using keepsD[OF f[of g x], of ?s1] keepsD[OF p[of g x], of ?s1] by (elim disjE) simp_all
  with 1 show "R s (fst (calculate_security_debt config s))" by (rule transpD[OF t])
qed

lemma keeps_check_global_thresholds:
  assumes r: "reflp R" and t: "transp R" and f: "\<And>g x. keeps R (fail_gate g x)"
  shows "keeps R (check_global_thresholds config)"
proof -
  have a: "\<And>(c :: results \<Rightarrow> bool) g (x :: results \<Rightarrow> string).
             keeps R (\<lambda>s. if_then (c s) (fail_gate g (x s)) s)"
    using keepsD[OF f] by (simp add: keeps_def if_then_def skip_def reflpD[OF r])
  show ?thesis
    unfolding check_global_thresholds_def Let_def block.simps
    by (intro keeps_seq[OF t] keeps_skip[OF r] a)
qed

lemma keeps_run_all_checks:
  assumes r: "reflp R" and t: "transp R"
      and f: "\<And>g x. keeps R (fail_gate g x)" and p: "\<And>g x. keeps R (pass_gate g x)"
      and h: "\<And>s n. R s (s\<lparr>high_issues := high_issues s + n\<rparr>)"
      and c: "\<And>s n. R s (s\<lparr>critical_issues := critical_issues s + n\<rparr>)"
      and d: "\<And>s n. R s (s\<lparr>security_debt := n\<rparr>)"
  shows "keeps R (run_all_checks config inputs)"
proof -
  have main: "keeps R (seq (block [check_sast_gates config inputs,
                         check_dependency_gates config inputs,
                         check_container_gates config, check_iac_gates config,
                         check_secrets_gates config])
                     (seq (calculate_security_debt config) (check_global_thresholds config)))"
    by (intro keeps_seq[OF t] keeps_categories[OF r t p]
          keeps_check_eslint_security[OF r t f p h] keeps_check_npm_audit[OF r t f p h c]
          keeps_calculate_security_debt[OF t f p d] keeps_check_global_thresholds[OF r t f])
  have assoc: "\<And>a b c :: results stmt. seq (seq a b) c = seq a (seq b c)"
    by (rule ext) (simp add: seq_def split: prod.splits option.splits)
  show ?thesis
    using main by (simp add: run_all_checks_def seq_skip assoc)
qed

lemma reflp_gate_step: "reflp gate_step"
  by (rule reflpI) (simp add: gate_step_def)

lemma transp_gate_step: "transp gate_step"
proof (rule transpI)
  fix a b c
  assume ab: "gate_step a b" and bc: "gate_step b c"
  from ab obtain n1 where n1: "failed_gates b = failed_gates a @ n1" "n1 \<noteq> [] \<longrightarrow> \<not> passed b"
    and pb: "passed b \<longrightarrow> passed a"
    unfolding gate_step_def by (elim conjE exE)
  from bc obtain n2 where n2: "failed_gates c = failed_gates b @ n2" "n2 \<noteq> [] \<longrightarrow> \<not> passed c"
    and pc: "passed c \<longrightarrow> passed b"
    unfolding gate_step_def by (elim conjE exE)
  have 1: "passed c \<longrightarrow> passed a" using pb pc by simp
  have 2: "failed_gates c = failed_gates a @ (n1 @ n2)" using n1(1) n2(1) by simp
  have 3: "n1 @ n2 \<noteq> [] \<longrightarrow> \<not> passed c" using n1(2) n2(2) pc by auto
  show "gate_step a c"
    unfolding gate_step_def using 1 2 3 by (intro conjI exI[of _ "n1 @ n2"])
qed

lemma gate_step_fail: "keeps gate_step (fail_gate g x)"
  by (simp add: keeps_def gate_step_def fail_gate_def)

lemma gate_step_pass: "keeps gate_step (pass_gate g x)"
  by (simp add: keeps_def gate_step_def pass_gate_def)

lemma gate_step_run_all_checks: "keeps gate_step (run_all_checks config inputs)"
  by (rule keeps_run_all_checks[OF reflp_gate_step transp_gate_step gate_step_fail gate_step_pass])
     (simp_all add: gate_step_def)

lemma block_of_gates:
  assumes "\<forall>f \<in> set fs. \<exists>g x. f = fail_gate g x \<or> f = pass_gate g x"
  shows "(\<not> passed r \<longrightarrow> \<not> passed (fst (block fs r)))
       \<and> ((\<exists>g x. fail_gate g x \<in> set fs) \<longrightarrow> \<not> passed (fst (block fs r)))"
  using assms
proof (induction fs arbitrary: r)
  case Nil
  show ?case by (simp add: skip_def)
next
  case (Cons f fs)
  from Cons.prems obtain g x where f: "f = fail_gate g x \<or> f = pass_gate g x"
    by auto
  have rest: "\<forall>f \<in> set fs. \<exists>g x. f = fail_gate g x \<or> f = pass_gate g x"
    using Cons.prems by simp
  note IH = Cons.IH[OF rest]
  from f show ?case
  proof
    assume ff: "f = fail_gate g x"
    let ?r1 = "r\<lparr>passed := False, failed_gates := failed_gates r @ [\<lparr>gate = g, reason = x\<rparr>]\<rparr>"
    have "block (f # fs) r = block fs ?r1"
      by (simp add: ff seq_def fail_gate_def)
    moreover have "\<not> passed ?r1" by simp
    ultimately show ?thesis using IH[of ?r1] by simp
  next
    assume fp: "f = pass_gate g x"
    let ?r1 = "r\<lparr>passed_gates := passed_gates r @ [\<lparr>gate = g, reason = x\<rparr>]\<rparr>"
    have b: "block (f # fs) r = block fs ?r1"
      by (simp add: fp seq_def pass_gate_def)
    have p: "passed ?r1 = passed r" by simp
    have nf: "\<And>g' x'. fail_gate g' x' \<noteq> f"
    proof
      fix g' x'
      assume "fail_gate g' x' = f"
      then have "fail_gate g' x' init_results = pass_gate g x init_results" using fp by simp
      then show False by (simp add: fail_gate_def pass_gate_def init_results_def)
    qed
    have "(\<exists>g x. fail_gate g x \<in> set (f # fs)) \<longleftrightarrow> (\<exists>g x. fail_gate g x \<in> set fs)"
      using nf by auto
    then show ?thesis using IH[of ?r1] b p by simp
  qed
qed

text \<open>
  C3. The verdict is monotonic. In a run of \<^verbatim>\<open>run_all_checks\<close> from any state,
  a verdict that is failed stays failed, and a run that added a failed gate ends with
  the verdict failed. The same holds for every sequence of calls of \<^verbatim>\<open>_fail_gate\<close>
  and \<^verbatim>\<open>_pass_gate\<close>: one failure in the sequence gives the verdict failed, however
  many passes precede or follow it.
\<close>

theorem gate_verdict_monotonic:
  "(\<not> passed r \<longrightarrow> \<not> passed (fst (run_all_checks config inputs r)))
   \<and> (failed_gates (fst (run_all_checks config inputs r)) \<noteq> failed_gates r
        \<longrightarrow> \<not> passed (fst (run_all_checks config inputs r)))
   \<and> ((\<forall>f \<in> set fs. \<exists>g x. f = fail_gate g x \<or> f = pass_gate g x) \<longrightarrow>
        (\<not> passed r \<longrightarrow> \<not> passed (fst (block fs r)))
        \<and> ((\<exists>g x. fail_gate g x \<in> set fs) \<longrightarrow> \<not> passed (fst (block fs r))))"
proof -
  have "gate_step r (fst (run_all_checks config inputs r))"
    by (rule keepsD[OF gate_step_run_all_checks])
  then have 1: "\<not> passed r \<longrightarrow> \<not> passed (fst (run_all_checks config inputs r))"
    and 2: "failed_gates (fst (run_all_checks config inputs r)) \<noteq> failed_gates r
        \<longrightarrow> \<not> passed (fst (run_all_checks config inputs r))"
    by (auto simp: gate_step_def)
  show ?thesis using 1 2 block_of_gates[of fs r] by simp
qed

lemma example_run:
  "run_all_checks (example_config 100) example_inputs init_results =
   (\<lparr>passed = False, total_issues = 0, critical_issues = 1, high_issues = 2, medium_issues = 0,
       low_issues = 0, security_debt = 90,
       failed_gates = [\<lparr>gate = ''NPM Audit'', reason = ''Critical vulnerabilities: 1 > 0''\<rparr>,
                       \<lparr>gate = ''Global Critical Threshold'', reason = ''Critical issues found: 1''\<rparr>],
       passed_gates = map (\<lambda>(g, x). \<lparr>gate = g, reason = x\<rparr>)
         [(''Semgrep'', ''No critical issues found''), (''CodeQL'', ''No critical issues found''),
          (''SonarCloud'', ''Quality gate passed''), (''Snyk'', ''No critical vulnerabilities found''),
          (''OSV Scanner'', ''No critical vulnerabilities found''),
          (''Trivy'', ''No critical container vulnerabilities found''),
          (''Grype'', ''No critical container vulnerabilities found''),
          (''Checkov'', ''No critical IaC issues found''), (''KICS'', ''No critical IaC issues found''),
          (''Hadolint'', ''No critical Dockerfile issues found''),
          (''TruffleHog'', ''No verified secrets found''),
          (''Security Debt'', ''Total debt 90 within limit 100'')],
       exempted_issues = 0\<rparr>, None)"
  by code_simp

theorem gate_verdict_monotonic_witness:
  "\<not> passed (fst (block [pass_gate ''Semgrep'' ''ok'', fail_gate ''NPM Audit'' ''bad'',
                           pass_gate ''Trivy'' ''ok''] init_results))
   \<and> failed_gates (fst (run_all_checks (example_config 100) example_inputs init_results))
        \<noteq> failed_gates init_results
   \<and> \<not> passed (fst (run_all_checks (example_config 100) example_inputs init_results))"
proof -
  let ?fs = "[pass_gate ''Semgrep'' ''ok'', fail_gate ''NPM Audit'' ''bad'', pass_gate ''Trivy'' ''ok'']"
  have a: "\<forall>f \<in> set ?fs. \<exists>g x. f = fail_gate g x \<or> f = pass_gate g x"
    by (simp, blast)
  have b: "\<exists>g x. fail_gate g x \<in> set ?fs"
    by (simp, blast)
  have c: "failed_gates (fst (run_all_checks (example_config 100) example_inputs init_results))
        \<noteq> failed_gates init_results"
    unfolding example_run by (simp add: init_results_def)
  show ?thesis
    using a b c gate_verdict_monotonic [of init_results "example_config 100" example_inputs ?fs]
    by blast
qed

lemma reflp_medium_low:
  "reflp (\<lambda>r r' :: results. medium_issues r' = medium_issues r \<and> low_issues r' = low_issues r)"
  by (rule reflpI) simp

lemma transp_medium_low:
  "transp (\<lambda>r r' :: results. medium_issues r' = medium_issues r \<and> low_issues r' = low_issues r)"
  by (rule transpI) simp

lemma keeps_medium_low_categories:
  "keeps (\<lambda>r r'. medium_issues r' = medium_issues r \<and> low_issues r' = low_issues r)
     (block [check_sast_gates config inputs, check_dependency_gates config inputs,
             check_container_gates config, check_iac_gates config,
             check_secrets_gates config])"
  by (rule keeps_categories[OF reflp_medium_low transp_medium_low];
      (rule keeps_check_eslint_security[OF reflp_medium_low transp_medium_low]
         | rule keeps_check_npm_audit[OF reflp_medium_low transp_medium_low])?;
      simp add: keeps_def fail_gate_def pass_gate_def)

lemma keeps_medium_low:
  "keeps (\<lambda>r r'. medium_issues r' = medium_issues r \<and> low_issues r' = low_issues r)
     (run_all_checks config inputs)"
  by (rule keeps_run_all_checks[OF reflp_medium_low transp_medium_low])
     (simp_all add: keeps_def fail_gate_def pass_gate_def)

lemma keeps_counts_debt_global:
  "keeps (\<lambda>r r'. critical_issues r' = critical_issues r \<and> high_issues r' = high_issues r
                 \<and> security_debt r' = security_debt r)
     (check_global_thresholds config)"
proof (rule keeps_check_global_thresholds)
  show "reflp (\<lambda>r r' :: results. critical_issues r' = critical_issues r
                 \<and> high_issues r' = high_issues r \<and> security_debt r' = security_debt r)"
    by (rule reflpI) simp
  show "transp (\<lambda>r r' :: results. critical_issues r' = critical_issues r
                 \<and> high_issues r' = high_issues r \<and> security_debt r' = security_debt r)"
    by (rule transpI) simp
qed (simp add: keeps_def fail_gate_def)

lemma calculate_security_debt_fields:
  "snd (calculate_security_debt config s) = None
   \<and> security_debt (fst (calculate_security_debt config s)) =
       critical_issues s * lookup_or (scoring_table config) ''critical'' 50
       + high_issues s * lookup_or (scoring_table config) ''high'' 20
       + medium_issues s * lookup_or (scoring_table config) ''medium'' 5
       + low_issues s * lookup_or (scoring_table config) ''low'' 1
   \<and> critical_issues (fst (calculate_security_debt config s)) = critical_issues s
   \<and> high_issues (fst (calculate_security_debt config s)) = high_issues s"
  by (simp add: calculate_security_debt_def scoring_table_def Let_def fail_gate_def pass_gate_def)

lemma check_global_thresholds_returns: "snd (check_global_thresholds config s) = None"
  by (simp add: check_global_thresholds_def Let_def seq_def if_then_def skip_def fail_gate_def)

text \<open>
  C9. In a run of \<^verbatim>\<open>run_all_checks\<close> from the initial results,
  \<^verbatim>\<open>medium_issues\<close> and \<^verbatim>\<open>low_issues\<close> are still 0 at the end, and when the run
  returns, the debt is the critical count times the critical weight plus the high
  count times the high weight.
\<close>

theorem debt_from_critical_and_high_only:
  assumes run: "run_all_checks config inputs init_results = (r, x)"
  shows "medium_issues r = 0 \<and> low_issues r = 0
       \<and> (x = None \<longrightarrow>
            security_debt r =
              critical_issues r * lookup_or (scoring_table config) ''critical'' 50
              + high_issues r * lookup_or (scoring_table config) ''high'' 20)"
proof -
  define cats where "cats =
     block [check_sast_gates config inputs, check_dependency_gates config inputs,
            check_container_gates config, check_iac_gates config,
            check_secrets_gates config]"
  have assoc: "\<And>a b c :: results stmt. seq (seq a b) c = seq a (seq b c)"
    by (rule ext) (simp add: seq_def split: prod.splits option.splits)
  have split: "run_all_checks config inputs =
          seq cats (seq (calculate_security_debt config) (check_global_thresholds config))"
    by (simp add: run_all_checks_def cats_def seq_skip assoc)
  have ml: "medium_issues r = 0 \<and> low_issues r = 0"
    using keepsD[OF keeps_medium_low[of config inputs], of init_results] run
    by (simp add: init_results_def)
  have debt: "security_debt r =
              critical_issues r * lookup_or (scoring_table config) ''critical'' 50
              + high_issues r * lookup_or (scoring_table config) ''high'' 20" if x: "x = None"
  proof -
    obtain s1 x1 where c: "cats init_results = (s1, x1)" by (cases "cats init_results")
    have x1: "x1 = None"
    proof (cases x1)
      case (Some e)
      then have "run_all_checks config inputs init_results = (s1, Some e)"
        unfolding split by (simp add: seq_def c)
      with run x show ?thesis by simp
    qed simp
    obtain s2 x2 where d: "calculate_security_debt config s1 = (s2, x2)"
      by (cases "calculate_security_debt config s1")
    have x2: "x2 = None" using calculate_security_debt_fields[of config s1] d by simp
    have r: "r = fst (check_global_thresholds config s2)"
      using run unfolding split by (simp add: seq_def c x1 d x2)
    have s1: "medium_issues s1 = 0 \<and> low_issues s1 = 0"
      using keepsD[OF keeps_medium_low_categories[of config inputs], of init_results] c
      by (simp add: cats_def init_results_def)
    have s2: "security_debt s2 =
                critical_issues s2 * lookup_or (scoring_table config) ''critical'' 50
                + high_issues s2 * lookup_or (scoring_table config) ''high'' 20"
      using calculate_security_debt_fields[of config s1] d s1 by simp
    have "critical_issues r = critical_issues s2 \<and> high_issues r = high_issues s2
          \<and> security_debt r = security_debt s2"
      using keepsD[OF keeps_counts_debt_global[of config], of s2] r by simp
    with s2 show ?thesis by simp
  qed
  show ?thesis using ml debt by simp
qed

theorem debt_from_critical_and_high_only_witness:
  "run_all_checks (example_config 100) example_inputs init_results
     = (fst (run_all_checks (example_config 100) example_inputs init_results), None)
   \<and> critical_issues (fst (run_all_checks (example_config 100) example_inputs init_results)) = 1
   \<and> high_issues (fst (run_all_checks (example_config 100) example_inputs init_results)) = 2
   \<and> medium_issues (fst (run_all_checks (example_config 100) example_inputs init_results)) = 0
   \<and> low_issues (fst (run_all_checks (example_config 100) example_inputs init_results)) = 0
   \<and> security_debt (fst (run_all_checks (example_config 100) example_inputs init_results)) = 90"
proof -
  have run: "run_all_checks (example_config 100) example_inputs init_results
     = (fst (run_all_checks (example_config 100) example_inputs init_results), None)"
    by (simp add: example_run)
  have w: "lookup_or (scoring_table (example_config 100)) ''critical'' 50 = 50"
          "lookup_or (scoring_table (example_config 100)) ''high'' 20 = 20"
    by (simp_all add: scoring_table_def example_config_def get_or_def default_scoring_def
          lookup_or_def)
  have c: "critical_issues (fst (run_all_checks (example_config 100) example_inputs init_results)) = 1"
    and h: "high_issues (fst (run_all_checks (example_config 100) example_inputs init_results)) = 2"
    by (simp_all add: example_run)
  show ?thesis
    using debt_from_critical_and_high_only [OF run] run c h w by simp
qed

text \<open>
  C2. When the configuration gives no \<^verbatim>\<open>scoring\<close> table, the debt is
  \<open>critical * 50 + high * 20 + medium * 5 + low * 1\<close> (there is no count for info, whose
  weight is 0). \<^verbatim>\<open>calculate_security_debt\<close> stores it and records the gate
  \<^verbatim>\<open>Security Debt\<close>: failed, with the verdict set to failed, exactly when the debt
  is greater than \<^verbatim>\<open>max_total_debt\<close> (100 when missing), and passed otherwise.
\<close>

theorem debt_default_weights_and_gate:
  assumes "\<forall>d. cfg_security_debt config = Some d \<longrightarrow> scoring d = None"
  shows "snd (calculate_security_debt config r) = None
       \<and> security_debt (fst (calculate_security_debt config r)) =
           critical_issues r * 50 + high_issues r * 20 + medium_issues r * 5 + low_issues r * 1
       \<and> (security_debt (fst (calculate_security_debt config r)) > max_debt_of config \<longrightarrow>
            \<not> passed (fst (calculate_security_debt config r))
            \<and> map gate (failed_gates (fst (calculate_security_debt config r)))
                = map gate (failed_gates r) @ [''Security Debt'']
            \<and> passed_gates (fst (calculate_security_debt config r)) = passed_gates r)
       \<and> (security_debt (fst (calculate_security_debt config r)) \<le> max_debt_of config \<longrightarrow>
            passed (fst (calculate_security_debt config r)) = passed r
            \<and> failed_gates (fst (calculate_security_debt config r)) = failed_gates r
            \<and> map gate (passed_gates (fst (calculate_security_debt config r)))
                = map gate (passed_gates r) @ [''Security Debt''])"
proof (cases "cfg_security_debt config")
  case None
  then show ?thesis
    by (simp add: calculate_security_debt_def max_debt_of_def Let_def default_scoring_def
          lookup_or_def fail_gate_def pass_gate_def)
next
  case (Some d)
  with assms have "scoring d = None" by simp
  with Some show ?thesis
    by (simp add: calculate_security_debt_def max_debt_of_def Let_def default_scoring_def
          lookup_or_def get_or_def fail_gate_def pass_gate_def)
qed

text \<open>
  The example: one critical and two high issues give the debt 90; the gate passes
  with \<^verbatim>\<open>max_total_debt: 100\<close> and fails with \<^verbatim>\<open>max_total_debt: 50\<close>.
\<close>

theorem debt_default_weights_and_gate_witness:
  "security_debt (fst (calculate_security_debt (example_config 100)
                         (init_results\<lparr>critical_issues := 1, high_issues := 2\<rparr>))) = 90
   \<and> passed (fst (calculate_security_debt (example_config 100)
                    (init_results\<lparr>critical_issues := 1, high_issues := 2\<rparr>)))
   \<and> map gate (passed_gates (fst (calculate_security_debt (example_config 100)
                    (init_results\<lparr>critical_issues := 1, high_issues := 2\<rparr>)))) = [''Security Debt'']
   \<and> \<not> passed (fst (calculate_security_debt (example_config 50)
                    (init_results\<lparr>critical_issues := 1, high_issues := 2\<rparr>)))
   \<and> map gate (failed_gates (fst (calculate_security_debt (example_config 50)
                    (init_results\<lparr>critical_issues := 1, high_issues := 2\<rparr>)))) = [''Security Debt'']"
proof -
  have h: "\<And>m. \<forall>d. cfg_security_debt (example_config m) = Some d \<longrightarrow> scoring d = None"
    by (auto simp: example_config_def)
  have m: "max_debt_of (example_config 100) = 100" "max_debt_of (example_config 50) = 50"
    by (simp_all add: max_debt_of_def example_config_def get_or_def)
  show ?thesis
    using debt_default_weights_and_gate [OF h [of 100], of "init_results\<lparr>critical_issues := 1, high_issues := 2\<rparr>"]
          debt_default_weights_and_gate [OF h [of 50], of "init_results\<lparr>critical_issues := 1, high_issues := 2\<rparr>"]
    by (simp add: m init_results_def)
qed

lemma reflp_verdict:
  "reflp (\<lambda>r r' :: results. passed r' = passed r \<and> failed_gates r' = failed_gates r)"
  by (rule reflpI) simp

lemma transp_verdict:
  "transp (\<lambda>r r' :: results. passed r' = passed r \<and> failed_gates r' = failed_gates r)"
  by (rule transpI) simp

text \<open>
  C7, as the code has it. When \<^verbatim>\<open>eslint-security-results.json\<close> does not exist and
  no NPM audit file is found, the checks of ESLint Security and NPM Audit return at once
  and record nothing. The other eleven checks read no result at all and are each a
  single \<^verbatim>\<open>_pass_gate\<close>. So the five category checks, run without result
  files, add no failed gate and leave the verdict as it was.
\<close>

theorem absent_results_record_no_failure:
  assumes e: "eslint_results inputs = None" and n: "npm_audit_files inputs = []"
  shows "check_eslint_security config inputs r = (r, None)
       \<and> check_npm_audit config inputs r = (r, None)
       \<and> (\<forall>(check, name) \<in> set stub_checks. \<exists>x. check = pass_gate name x)
       \<and> passed (fst (block [check_sast_gates config inputs, check_dependency_gates config inputs,
                             check_container_gates config, check_iac_gates config,
                             check_secrets_gates config] r)) = passed r
       \<and> failed_gates (fst (block [check_sast_gates config inputs,
                             check_dependency_gates config inputs,
                             check_container_gates config, check_iac_gates config,
                             check_secrets_gates config] r)) = failed_gates r"
proof -
  have es: "check_eslint_security config inputs = skip"
    by (simp add: check_eslint_security_def e)
  have ns: "check_npm_audit config inputs = skip"
    by (simp add: check_npm_audit_def n)
  have stubs: "\<forall>(check, name) \<in> set stub_checks. \<exists>x. check = pass_gate name x"
    by (simp add: stub_checks_def check_semgrep_def check_codeql_def check_sonarcloud_def
          check_snyk_def check_osv_scanner_def check_trivy_def check_grype_def
          check_checkov_def check_kics_def check_hadolint_def check_trufflehog_def)
       (intro conjI exI; rule refl)
  have "keeps (\<lambda>r r'. passed r' = passed r \<and> failed_gates r' = failed_gates r)
          (block [check_sast_gates config inputs, check_dependency_gates config inputs,
                  check_container_gates config, check_iac_gates config,
                  check_secrets_gates config])"
    by (rule keeps_categories[OF reflp_verdict transp_verdict])
       (simp_all add: es ns keeps_skip[OF reflp_verdict], simp add: keeps_def pass_gate_def)
  from keepsD[OF this, of r] show ?thesis
    using stubs by (simp add: es ns skip_def)
qed

theorem absent_results_record_no_failure_witness:
  "eslint_results absent_inputs = None \<and> npm_audit_files absent_inputs = []
   \<and> check_eslint_security (example_config 100) absent_inputs init_results = (init_results, None)
   \<and> check_npm_audit (example_config 100) absent_inputs init_results = (init_results, None)
   \<and> check_semgrep = pass_gate ''Semgrep'' ''No critical issues found''
   \<and> passed (fst (block [check_sast_gates (example_config 100) absent_inputs,
                         check_dependency_gates (example_config 100) absent_inputs,
                         check_container_gates (example_config 100),
                         check_iac_gates (example_config 100),
                         check_secrets_gates (example_config 100)] init_results))
   \<and> failed_gates (fst (block [check_sast_gates (example_config 100) absent_inputs,
                         check_dependency_gates (example_config 100) absent_inputs,
                         check_container_gates (example_config 100),
                         check_iac_gates (example_config 100),
                         check_secrets_gates (example_config 100)] init_results)) = []"
proof -
  have e: "eslint_results absent_inputs = None" and n: "npm_audit_files absent_inputs = []"
    by (simp_all add: absent_inputs_def)
  have i: "passed init_results" "failed_gates init_results = []"
    by (simp_all add: init_results_def)
  show ?thesis
    using absent_results_record_no_failure [OF e n, of "example_config 100" init_results] e n i
    by (simp add: check_semgrep_def)
qed

text \<open>
  Semgrep is configured and enabled and no result file exists, and
  \<^verbatim>\<open>check_sast_gates\<close> still records passed gates for Semgrep, CodeQL and
  SonarCloud.
\<close>

theorem semgrep_passes_without_results:
  "is_tool_enabled [(''eslint_security'', example_tool), (''semgrep'', example_tool)] ''semgrep''
   \<and> eslint_results absent_inputs = None \<and> npm_audit_files absent_inputs = []
   \<and> map gate (passed_gates (fst (check_sast_gates (example_config 100) absent_inputs
                                     init_results)))
       = [''Semgrep'', ''CodeQL'', ''SonarCloud'']"
  by code_simp

section \<open>The severity tables\<close>

text \<open>
  C6, as the code has it. On a string, each of the three tables returns one of its own
  labels. A string that is not in the table becomes \<^verbatim>\<open>medium\<close> in
  \<^verbatim>\<open>_map_osv_severity\<close> and \<^verbatim>\<open>_map_checkov_severity\<close>, which
  \<^verbatim>\<open>_update_summary\<close> counts as medium, and the label \<^verbatim>\<open>Unknown\<close> in
  \<^verbatim>\<open>_map_nuclei_severity\<close>, which \<^verbatim>\<open>_update_summary\<close> counts under info.
  On a value that is not a string, such as \<^verbatim>\<open>null\<close>, each of the three raises
  \<^verbatim>\<open>AttributeError\<close> and returns no label.
\<close>

theorem severity_map_defaults:
  "(upper s \<notin> {codes ''CRITICAL'', codes ''HIGH'', codes ''MODERATE'', codes ''LOW''}
      \<longrightarrow> map_osv_severity (PStr s) = Inr ''medium'')
   \<and> (upper s \<notin> {codes ''CRITICAL'', codes ''HIGH'', codes ''MEDIUM'', codes ''LOW'',
                   codes ''INFO''}
        \<longrightarrow> map_checkov_severity (PStr s) = Inr ''medium'')
   \<and> (lower s \<notin> {''critical'', ''high'', ''medium'', ''low'', ''info''}
        \<longrightarrow> map_nuclei_severity (PStr s) = Inr ''Unknown'')
   \<and> dependency_update_summary (PStr ''medium'') sm
       = Inr (sm\<lparr>medium := medium sm + 1, total := total sm + 1\<rparr>)
   \<and> iac_update_summary (PStr ''medium'') sm
       = Inr (sm\<lparr>medium := medium sm + 1, total := total sm + 1\<rparr>)
   \<and> dast_update_summary (PStr ''Unknown'') sm
       = Inr (sm\<lparr>info := info sm + 1, total := total sm + 1\<rparr>)
   \<and> map_osv_severity (PStr s) \<in> Inr ` {''critical'', ''high'', ''medium'', ''low''}
   \<and> map_checkov_severity (PStr s) \<in> Inr ` {''critical'', ''high'', ''medium'', ''low'', ''info''}
   \<and> map_nuclei_severity (PStr s)
       \<in> Inr ` {''Critical'', ''High'', ''Medium'', ''Low'', ''Informational'', ''Unknown''}
   \<and> (type_name v \<noteq> ''str''
        \<longrightarrow> map_osv_severity v = Inl (no_attribute v ''upper'')
            \<and> map_checkov_severity v = Inl (no_attribute v ''upper'')
            \<and> map_nuclei_severity v = Inl (no_attribute v ''lower''))"
proof -
  have u: "lower ''Unknown'' = ''unknown''" "lower ''medium'' = ''medium''"
    by (simp_all add: lower_def lower_char_def upper_case_letters_def lower_case_of_them_def)
  have d: "dast_update_summary (PStr ''Unknown'') sm
             = Inr (sm\<lparr>info := info sm + 1, total := total sm + 1\<rparr>)"
    by (simp add: dast_update_summary_def lower_method_def u Let_def)
  have p: "dependency_update_summary (PStr ''medium'') sm
             = Inr (sm\<lparr>medium := medium sm + 1, total := total sm + 1\<rparr>)"
    by (simp add: dependency_update_summary_def lower_method_def u Let_def)
  have i: "iac_update_summary (PStr ''medium'') sm
             = Inr (sm\<lparr>medium := medium sm + 1, total := total sm + 1\<rparr>)"
    by (simp add: iac_update_summary_def lower_method_def u Let_def)
  have n: "type_name v \<noteq> ''str''
           \<longrightarrow> map_osv_severity v = Inl (no_attribute v ''upper'')
               \<and> map_checkov_severity v = Inl (no_attribute v ''upper'')
               \<and> map_nuclei_severity v = Inl (no_attribute v ''lower'')"
    by (cases v)
       (simp_all add: map_osv_severity_def map_checkov_severity_def map_nuclei_severity_def
          upper_method_def lower_method_def)
  have m: "(upper s \<notin> {codes ''CRITICAL'', codes ''HIGH'', codes ''MODERATE'', codes ''LOW''}
              \<longrightarrow> map_osv_severity (PStr s) = Inr ''medium'')
           \<and> (upper s \<notin> {codes ''CRITICAL'', codes ''HIGH'', codes ''MEDIUM'', codes ''LOW'',
                           codes ''INFO''}
                \<longrightarrow> map_checkov_severity (PStr s) = Inr ''medium'')
           \<and> (lower s \<notin> {''critical'', ''high'', ''medium'', ''low'', ''info''}
                \<longrightarrow> map_nuclei_severity (PStr s) = Inr ''Unknown'')
           \<and> map_osv_severity (PStr s) \<in> Inr ` {''critical'', ''high'', ''medium'', ''low''}
           \<and> map_checkov_severity (PStr s)
               \<in> Inr ` {''critical'', ''high'', ''medium'', ''low'', ''info''}
           \<and> map_nuclei_severity (PStr s)
               \<in> Inr ` {''Critical'', ''High'', ''Medium'', ''Low'', ''Informational'',
                         ''Unknown''}"
    by (simp add: map_osv_severity_def map_checkov_severity_def map_nuclei_severity_def
          upper_method_def lower_method_def lookup_or_def)
  show ?thesis
    using d p i n m by (intro conjI) (elim conjE; assumption)+
qed

lemma upper_bogus: "upper ''BOGUS'' = codes ''BOGUS''"
  by code_simp

lemma lower_bogus: "lower ''BOGUS'' = ''bogus''"
  by (simp add: lower_def lower_char_def upper_case_letters_def lower_case_of_them_def)

lemma codes_bogus:
  "codes ''BOGUS'' \<notin> {codes ''CRITICAL'', codes ''HIGH'', codes ''MODERATE'', codes ''LOW'',
                       codes ''MEDIUM'', codes ''INFO''}"
  by code_simp

text \<open>The severity \<^verbatim>\<open>BOGUS\<close>, and the severity \<^verbatim>\<open>null\<close>.\<close>

theorem severity_map_defaults_witness:
  "upper ''BOGUS'' \<notin> {codes ''CRITICAL'', codes ''HIGH'', codes ''MODERATE'', codes ''LOW''}
   \<and> map_osv_severity (PStr ''BOGUS'') = Inr ''medium''
   \<and> map_checkov_severity (PStr ''BOGUS'') = Inr ''medium''
   \<and> map_nuclei_severity (PStr ''BOGUS'') = Inr ''Unknown''
   \<and> type_name PNone \<noteq> ''str''
   \<and> map_osv_severity PNone = Inl (no_attribute PNone ''upper'')
   \<and> map_checkov_severity PNone = Inl (no_attribute PNone ''upper'')
   \<and> map_nuclei_severity PNone = Inl (no_attribute PNone ''lower'')"
  using severity_map_defaults [of "''BOGUS''" _ PNone] codes_bogus
  by (simp add: upper_bogus lower_bogus)

text \<open>
  The severity \<^verbatim>\<open>BOGUS\<close> is in no table, and no table gives it \<^verbatim>\<open>info\<close>.
\<close>

theorem severity_map_unknown_not_info:
  "upper ''BOGUS'' \<notin> {codes ''CRITICAL'', codes ''HIGH'', codes ''MODERATE'', codes ''LOW''}
   \<and> map_osv_severity (PStr ''BOGUS'') \<noteq> Inr ''info''
   \<and> upper ''BOGUS'' \<notin> {codes ''CRITICAL'', codes ''HIGH'', codes ''MEDIUM'', codes ''LOW'',
                         codes ''INFO''}
   \<and> map_checkov_severity (PStr ''BOGUS'') \<noteq> Inr ''info''
   \<and> lower ''BOGUS'' \<notin> {''critical'', ''high'', ''medium'', ''low'', ''info''}
   \<and> map_nuclei_severity (PStr ''BOGUS'') \<noteq> Inr ''info''"
  by code_simp

end
